theory Spec2Isabelle
  imports Main "HOL-Library.Multiset" "HOL-Library.AList"
begin

section \<open>Endpoint model (internal/types/types.go)\<close>

text \<open>
  \<^verbatim>\<open>time.Time\<close> values are instants; only their identity matters here, so an
  instant is an integer. Go's \<^verbatim>\<open>int\<close> and \<^verbatim>\<open>int64\<close> fields are \<open>int\<close> here.
  Weights, status codes and response times are only stored and compared. The failure
  counter is incremented: Go's \<^verbatim>\<open>int\<close> has 64 bits and \<^verbatim>\<open>FailCount++\<close> wraps around
  from \<open>2^63 - 1\<close> to \<open>-2^63\<close>, which \<open>wrap_int\<close> writes out.
\<close>

type_synonym time = int

definition wrap_int :: "int \<Rightarrow> int" where
  "wrap_int x = (x + 2 ^ 63) mod 2 ^ 64 - 2 ^ 63"

record RPCEndpoint =
  ID :: int
  Name :: string
  URL :: string
  Weight :: int
  Enabled :: bool
  ChainID :: int
  ChainName :: string
  Healthy :: bool
  LastCheck :: time
  ResponseTime :: int
  BlockNumber :: string
  CreatedAt :: time
  UpdatedAt :: time
  FailCount :: int

text \<open>
  The methods of \<^verbatim>\<open>*RPCEndpoint\<close>. Each one runs under the endpoint's mutex, so it is
  one atomic update of the endpoint; the instant read by \<^verbatim>\<open>time.Now()\<close> is the
  parameter \<open>now\<close>.
\<close>

definition SetHealthy :: "time \<Rightarrow> bool \<Rightarrow> RPCEndpoint \<Rightarrow> RPCEndpoint" where
  "SetHealthy now healthy e =
     e\<lparr>Healthy := healthy, LastCheck := now,
       FailCount := (if healthy then 0 else wrap_int (FailCount e + 1))\<rparr>"

definition IsHealthy :: "RPCEndpoint \<Rightarrow> bool" where
  "IsHealthy e = Healthy e"

definition GetFailCount :: "RPCEndpoint \<Rightarrow> int" where
  "GetFailCount e = FailCount e"

definition SetResponseTime :: "int \<Rightarrow> RPCEndpoint \<Rightarrow> RPCEndpoint" where
  "SetResponseTime rt e = e\<lparr>ResponseTime := rt\<rparr>"

definition SetBlockNumber :: "string \<Rightarrow> RPCEndpoint \<Rightarrow> RPCEndpoint" where
  "SetBlockNumber bn e = e\<lparr>BlockNumber := bn\<rparr>"

text \<open>\<^verbatim>\<open>IncrementFailCount\<close> returns the new counter and the updated endpoint.\<close>

definition IncrementFailCount :: "RPCEndpoint \<Rightarrow> int \<times> RPCEndpoint" where
  "IncrementFailCount e =
     (wrap_int (FailCount e + 1), e\<lparr>FailCount := wrap_int (FailCount e + 1)\<rparr>)"

section \<open>Single-chain checker (internal/health/checker.go)\<close>

record HealthCheckConfig =
  Interval :: int
  Timeout :: int
  Retries :: int

definition markHealthy :: "time \<Rightarrow> RPCEndpoint \<Rightarrow> int \<Rightarrow> string \<Rightarrow> RPCEndpoint" where
  "markHealthy now endpoint responseTime blockNumber =
     SetBlockNumber blockNumber (SetResponseTime responseTime (SetHealthy now True endpoint))"

definition markUnhealthy ::
  "HealthCheckConfig \<Rightarrow> time \<Rightarrow> RPCEndpoint \<Rightarrow> int \<Rightarrow> string \<Rightarrow> RPCEndpoint" where
  "markUnhealthy config now endpoint responseTime blockNumber =
     (let e1 = SetBlockNumber blockNumber (SetResponseTime responseTime endpoint);
          (failCount, e2) = IncrementFailCount e1
      in if failCount \<ge> Retries config then SetHealthy now False e2 else e2)"

section \<open>Library functions used by the probe\<close>

text \<open>
  Decoded JSON values, as \<^verbatim>\<open>encoding/json\<close> stores them in an \<^verbatim>\<open>interface{}\<close>:
  \<open>JNull\<close> is the nil interface. A number keeps the text of its literal.
\<close>

datatype json =
  JNull
| JBool bool
| JNumber string
| JString string
| JArray "json list"
| JObject "(string \<times> json) list"

text \<open>\<^verbatim>\<open>strings.HasPrefix\<close>.\<close>

definition HasPrefix :: "string \<Rightarrow> string \<Rightarrow> bool" where
  "HasPrefix s p = (take (length p) s = p)"

text \<open>
  \<^verbatim>\<open>strconv.ParseInt(s, base, bitSize)\<close> of the Go standard library, for an explicit
  base between 2 and 36, written from its documented behaviour: an optional sign, then
  one or more digits of the base (letters in either case, no prefix, no underscore);
  the value must fit a signed integer of \<open>bitSize\<close> bits. \<open>None\<close> is any error
  (syntax or range).
\<close>

definition digitVal :: "char \<Rightarrow> nat option" where
  "digitVal c =
     (let n = (of_char c :: nat) in
      if 48 \<le> n \<and> n \<le> 57 then Some (n - 48)
      else if 97 \<le> n \<and> n \<le> 122 then Some (n - 87)
      else if 65 \<le> n \<and> n \<le> 90 then Some (n - 55)
      else None)"

fun parseDigits :: "nat \<Rightarrow> nat \<Rightarrow> string \<Rightarrow> nat option" where
  "parseDigits base n [] = Some n"
| "parseDigits base n (c # cs) =
     (case digitVal c of
        None \<Rightarrow> None
      | Some d \<Rightarrow> if d \<ge> base then None else parseDigits base (n * base + d) cs)"

definition ParseInt :: "string \<Rightarrow> nat \<Rightarrow> nat \<Rightarrow> int option" where
  "ParseInt s base bitSize =
     (if s = [] then None
      else
        let neg = (hd s = CHR ''-'');
            t = (if hd s = CHR ''+'' \<or> hd s = CHR ''-'' then tl s else s)
        in if t = [] then None
           else case parseDigits base 0 t of
                  None \<Rightarrow> None
                | Some un \<Rightarrow>
                    let cutoff = (2::nat) ^ (bitSize - 1)
                    in if \<not> neg \<and> un \<ge> cutoff then None
                       else if neg \<and> un > cutoff then None
                       else Some (if neg then - int un else int un))"

text \<open>\<^verbatim>\<open>fmt.Sprintf("%d", n)\<close>: the decimal numeral of an integer.\<close>

fun digits10 :: "nat \<Rightarrow> string" where
  "digits10 n =
     (if n < 10 then [char_of (48 + n)]
      else digits10 (n div 10) @ [char_of (48 + n mod 10)])"

definition Sprintf_d :: "int \<Rightarrow> string" where
  "Sprintf_d n = (if n < 0 then CHR ''-'' # digits10 (nat (- n)) else digits10 (nat n))"

section \<open>Probing one endpoint\<close>

text \<open>
  An \<^verbatim>\<open>http.Response\<close> as \<^verbatim>\<open>client.Do\<close> returns it: its status code (a code that
  \<^verbatim>\<open>WriteHeader\<close> accepts, 100 to 999), its header entries, and the bytes that reading
  its body yields.
\<close>

record HTTPResponse =
  StatusCode :: int
  Header :: "(string \<times> string) list"
  Body :: string

text \<open>
  \<^verbatim>\<open>types.JSONRPCError\<close> and \<^verbatim>\<open>types.JSONRPCResponse\<close>; a nil \<^verbatim>\<open>interface{}\<close> is
  \<open>JNull\<close>, a nil \<^verbatim>\<open>*JSONRPCError\<close> is \<open>None\<close>. (The field \<^verbatim>\<open>ID\<close> of the response is
  \<open>RespID\<close> here: the endpoint record has the name already.)
\<close>

record JSONRPCError =
  Code :: int
  Message :: string
  Data :: json

record JSONRPCResponse =
  Jsonrpc :: string
  Result :: json
  Error :: "JSONRPCError option"
  RespID :: json

text \<open>
  What one probe pass of one endpoint meets outside the program: whether
  \<^verbatim>\<open>json.Marshal\<close> and \<^verbatim>\<open>http.NewRequestWithContext\<close> fail, whether the pass's
  context is done before the one-second wait ahead of attempt \<open>i > 0\<close> is over, what
  \<^verbatim>\<open>client.Do\<close> returns at attempt \<open>i\<close> (\<open>Inl\<close> a transport error), how
  \<^verbatim>\<open>json.Decoder.Decode\<close> reads a body into a \<^verbatim>\<open>map[string]interface{}\<close> and into a
  \<^verbatim>\<open>types.JSONRPCResponse\<close> (\<open>None\<close> a decoding error), the instant \<^verbatim>\<open>time.Now()\<close>
  reads when the health flag is written, and the milliseconds \<^verbatim>\<open>time.Since(start)\<close>
  reads.
\<close>

record probe_env =
  marshalErr :: bool
  newRequestErr :: bool
  ctxDone :: "nat \<Rightarrow> bool"
  clientDo :: "nat \<Rightarrow> string + HTTPResponse"
  decodeMap :: "string \<Rightarrow> (string \<rightharpoonup> json) option"
  decodeRPC :: "string \<Rightarrow> JSONRPCResponse option"
  now :: time
  elapsed :: int

subsection \<open>Multi-chain checker\<close>

text \<open>Lines 304--315 of \<^verbatim>\<open>processHealthCheckResponse\<close>: the block number of a decoded reply.\<close>

definition blockNumberOf :: "(string \<rightharpoonup> json) \<Rightarrow> int option" where
  "blockNumberOf jsonResp =
     (case jsonResp ''result'' of
        Some (JString blockHex) \<Rightarrow>
          if HasPrefix blockHex ''0x'' then ParseInt (drop 2 blockHex) 16 64 else None
      | _ \<Rightarrow> None)"

text \<open>Line 298: the reply has an \<^verbatim>\<open>error\<close> member that is not null.\<close>

definition hasError :: "(string \<rightharpoonup> json) \<Rightarrow> bool" where
  "hasError jsonResp =
     (case jsonResp ''error'' of Some errorObj \<Rightarrow> errorObj \<noteq> JNull | None \<Rightarrow> False)"

definition processHealthCheckResponse ::
  "probe_env \<Rightarrow> RPCEndpoint \<Rightarrow> HTTPResponse \<Rightarrow> bool \<times> RPCEndpoint" where
  "processHealthCheckResponse env endpoint resp =
     (let e1 = SetResponseTime (elapsed env) endpoint in
      if StatusCode resp \<noteq> 200 then (True, SetHealthy (now env) False e1)
      else
        (case decodeMap env (Body resp) of
           None \<Rightarrow> (True, SetHealthy (now env) False e1)
         | Some jsonResp \<Rightarrow>
             if hasError jsonResp then (True, SetHealthy (now env) False e1)
             else
               (case blockNumberOf jsonResp of
                  Some blockNum \<Rightarrow>
                    (True, SetHealthy (now env) True (SetBlockNumber (Sprintf_d blockNum) e1))
                | None \<Rightarrow> (True, SetHealthy (now env) False e1))))"

text \<open>
  The retry loop of \<^verbatim>\<open>checkEndpointHealth\<close> (lines 241--265) from attempt \<open>attempt\<close> on,
  with what follows it (lines 267--270) when the attempts are used up.
\<close>

function attemptLoop :: "probe_env \<Rightarrow> int \<Rightarrow> nat \<Rightarrow> RPCEndpoint \<Rightarrow> RPCEndpoint" where
  "attemptLoop env retries attempt endpoint =
     (if int attempt < retries then
        if attempt > 0 \<and> ctxDone env attempt then SetHealthy (now env) False endpoint
        else
          (case clientDo env attempt of
             Inl err \<Rightarrow> attemptLoop env retries (attempt + 1) endpoint
           | Inr resp \<Rightarrow>
               (let (done, e1) = processHealthCheckResponse env endpoint resp
                in if done then e1 else attemptLoop env retries (attempt + 1) e1))
      else SetResponseTime (elapsed env) (SetHealthy (now env) False endpoint))"
  by pat_completeness auto
termination
  by (relation "measure (\<lambda>(env, retries, attempt, endpoint). nat (retries - int attempt))") auto

definition checkEndpointHealth :: "probe_env \<Rightarrow> HealthCheckConfig \<Rightarrow> RPCEndpoint \<Rightarrow> RPCEndpoint" where
  "checkEndpointHealth env healthConfig endpoint =
     (if marshalErr env then SetHealthy (now env) False endpoint
      else if newRequestErr env then SetHealthy (now env) False endpoint
      else attemptLoop env (Retries healthConfig) 0 endpoint)"

subsection \<open>Single-chain checker\<close>

text \<open>
  \<^verbatim>\<open>Checker.checkEndpoint\<close> (internal/health/checker.go): one request, no retry; every
  failure goes through \<^verbatim>\<open>markUnhealthy\<close>, and a reply whose result is any string goes
  through \<^verbatim>\<open>markHealthy\<close> with that string as the block number.
\<close>

definition checkEndpoint :: "probe_env \<Rightarrow> HealthCheckConfig \<Rightarrow> RPCEndpoint \<Rightarrow> RPCEndpoint" where
  "checkEndpoint env config endpoint =
     (if marshalErr env then markUnhealthy config (now env) endpoint 0 []
      else if newRequestErr env then markUnhealthy config (now env) endpoint 0 []
      else
        (case clientDo env 0 of
           Inl err \<Rightarrow> markUnhealthy config (now env) endpoint 0 []
         | Inr resp \<Rightarrow>
             (let responseTime = elapsed env in
              if StatusCode resp \<noteq> 200
              then markUnhealthy config (now env) endpoint responseTime []
              else
                (case decodeRPC env (Body resp) of
                   None \<Rightarrow> markUnhealthy config (now env) endpoint responseTime []
                 | Some rpcResp \<Rightarrow>
                     if Error rpcResp \<noteq> None
                     then markUnhealthy config (now env) endpoint responseTime []
                     else
                       (case Result rpcResp of
                          JString blockNumber \<Rightarrow>
                            markHealthy (now env) endpoint responseTime blockNumber
                        | _ \<Rightarrow> markUnhealthy config (now env) endpoint responseTime [])))))"

section \<open>The registry of chains (multi-chain checker)\<close>

text \<open>
  Endpoints are shared by pointer between the registry, the probing goroutines and the
  proxy: an endpoint pointer is an address, and the heap gives the endpoint at each
  address. A \<^verbatim>\<open>ChainConfig\<close> holds the chain's description, left abstract, and its
  endpoint pointers in configuration order.
\<close>

type_synonym addr = nat
type_synonym heap = "addr \<Rightarrow> RPCEndpoint"

record 'c ChainConfig =
  Chain :: 'c
  Endpoints :: "addr list"

text \<open>
  \<^verbatim>\<open>MultiChainChecker\<close>. The map \<^verbatim>\<open>chains\<close> is an association list with one entry per
  name. \<open>probers\<close> are the goroutines running \<^verbatim>\<open>runChainHealthChecker\<close> that have been
  started, each with the chain name and the \<^verbatim>\<open>ChainConfig\<close> pointer it was started
  with. The context \<^verbatim>\<open>mc.ctx\<close> that ends them is cancelled by \<^verbatim>\<open>Stop\<close> only, and
  \<^verbatim>\<open>Stop\<close> is not part of this model: the model covers the runs of the registry up to
  a call of \<^verbatim>\<open>Stop\<close>, in which no goroutine that was started has returned.
\<close>

record 'c MultiChainChecker =
  chains :: "(string \<times> 'c ChainConfig) list"
  healthConfig :: HealthCheckConfig
  isRunning :: bool
  probers :: "(string \<times> 'c ChainConfig) list"

definition GetHealthyEndpoints :: "'c MultiChainChecker \<Rightarrow> heap \<Rightarrow> string \<Rightarrow> addr list" where
  "GetHealthyEndpoints mc \<sigma> chainName =
     (case map_of (chains mc) chainName of
        None \<Rightarrow> []
      | Some chainConfig \<Rightarrow> filter (\<lambda>endpoint. IsHealthy (\<sigma> endpoint)) (Endpoints chainConfig))"

text \<open>
  \<^verbatim>\<open>checkChainHealth\<close>: one pass over a chain. Every enabled endpoint is probed in a
  goroutine of its own and the pass waits for all of them; each goroutine writes its own
  endpoint only, so the pass is modelled as the probes in list order. \<open>envs i\<close> is what
  the probe of the \<open>i\<close>-th endpoint of the list meets.
\<close>

fun checkEndpoints ::
  "(nat \<Rightarrow> probe_env) \<Rightarrow> HealthCheckConfig \<Rightarrow> nat \<Rightarrow> addr list \<Rightarrow> heap \<Rightarrow> heap" where
  "checkEndpoints envs hc i [] \<sigma> = \<sigma>"
| "checkEndpoints envs hc i (endpoint # rest) \<sigma> =
     checkEndpoints envs hc (i + 1) rest
       (if \<not> Enabled (\<sigma> endpoint) then \<sigma>
        else \<sigma>(endpoint := checkEndpointHealth (envs i) hc (\<sigma> endpoint)))"

definition checkChainHealth ::
  "'c MultiChainChecker \<Rightarrow> (nat \<Rightarrow> probe_env) \<Rightarrow> 'c ChainConfig \<Rightarrow> heap \<Rightarrow> heap" where
  "checkChainHealth mc envs chainConfig \<sigma> =
     checkEndpoints envs (healthConfig mc) 0 (Endpoints chainConfig) \<sigma>"

text \<open>
  \<^verbatim>\<open>Start\<close>, \<^verbatim>\<open>AddChain\<close> and \<^verbatim>\<open>RemoveChain\<close>, each under the registry's lock, which
  none of them holds while it waits for a goroutine. \<^verbatim>\<open>Start\<close> launches one goroutine
  per chain of the map, \<^verbatim>\<open>AddChain\<close> one for the new chain when the checker is running.
\<close>

definition Start :: "'c MultiChainChecker \<Rightarrow> 'c MultiChainChecker" where
  "Start mc =
     (if isRunning mc then mc
      else mc\<lparr>isRunning := True, probers := probers mc @ chains mc\<rparr>)"

definition AddChain ::
  "string \<Rightarrow> 'c ChainConfig \<Rightarrow> 'c MultiChainChecker \<Rightarrow> 'c MultiChainChecker" where
  "AddChain chainName chainConfig mc =
     (let mc1 = mc\<lparr>chains := AList.update chainName chainConfig (chains mc)\<rparr>
      in if isRunning mc1 then mc1\<lparr>probers := probers mc1 @ [(chainName, chainConfig)]\<rparr>
         else mc1)"

definition RemoveChain :: "string \<Rightarrow> 'c MultiChainChecker \<Rightarrow> 'c MultiChainChecker" where
  "RemoveChain chainName mc = mc\<lparr>chains := AList.delete chainName (chains mc)\<rparr>"

text \<open>
  One pass of the \<open>k\<close>-th running goroutine of \<^verbatim>\<open>runChainHealthChecker\<close> (its first pass,
  or the pass of a tick of its ticker), on the \<^verbatim>\<open>ChainConfig\<close> it holds.
\<close>

definition proberPass ::
  "nat \<Rightarrow> (nat \<Rightarrow> probe_env) \<Rightarrow> 'c MultiChainChecker \<Rightarrow> heap \<Rightarrow> heap" where
  "proberPass k envs mc \<sigma> =
     (if k < length (probers mc) then checkChainHealth mc envs (snd (probers mc ! k)) \<sigma>
      else \<sigma>)"

section \<open>The proxy (internal/proxy/server.go)\<close>

subsection \<open>Ordering the endpoints by weight\<close>

text \<open>
  The bubble sort of \<^verbatim>\<open>getSortedEndpointsByWeight\<close> on the copied slice: the inner loop
  from index \<open>j\<close> on, for the outer index \<open>i\<close>, and the outer loop from \<open>i\<close> on. The
  weights are read through the pointers.
\<close>

function innerLoop :: "heap \<Rightarrow> nat \<Rightarrow> nat \<Rightarrow> addr list \<Rightarrow> addr list" where
  "innerLoop \<sigma> i j sortedEndpoints =
     (if int j < int (length sortedEndpoints) - int i - 1 then
        innerLoop \<sigma> i (j + 1)
          (if Weight (\<sigma> (sortedEndpoints ! j)) < Weight (\<sigma> (sortedEndpoints ! (j + 1)))
           then sortedEndpoints[j := sortedEndpoints ! (j + 1), j + 1 := sortedEndpoints ! j]
           else sortedEndpoints)
      else sortedEndpoints)"
  by pat_completeness auto
termination
  by (relation "measure (\<lambda>(\<sigma>, i, j, xs). length xs - j)") auto

declare innerLoop.simps [simp del]

function outerLoop :: "heap \<Rightarrow> nat \<Rightarrow> addr list \<Rightarrow> addr list" where
  "outerLoop \<sigma> i sortedEndpoints =
     (if int i < int (length sortedEndpoints) - 1
      then outerLoop \<sigma> (i + 1) (innerLoop \<sigma> i 0 sortedEndpoints)
      else sortedEndpoints)"
  by pat_completeness auto

lemma length_innerLoop [simp]: "length (innerLoop \<sigma> i j xs) = length xs"
proof (induction \<sigma> i j xs rule: innerLoop.induct)
  case (1 \<sigma> i j xs)
  then show ?case by (subst innerLoop.simps) auto
qed

termination outerLoop
  by (relation "measure (\<lambda>(\<sigma>, i, xs). length xs - i)") auto

declare outerLoop.simps [simp del]

definition getSortedEndpointsByWeight :: "heap \<Rightarrow> addr list \<Rightarrow> addr list" where
  "getSortedEndpointsByWeight \<sigma> endpoints =
     (if length endpoints = 0 then [] else outerLoop \<sigma> 0 endpoints)"

text \<open>
  The invariant of the outer loop of the sort: before pass \<open>i\<close>, each of the last \<open>i\<close>
  positions holds a weight that is at most every weight before it.
\<close>

definition suffixSorted :: "heap \<Rightarrow> nat \<Rightarrow> addr list \<Rightarrow> bool" where
  "suffixSorted \<sigma> i xs \<longleftrightarrow>
     (\<forall>p q. p < q \<and> q < length xs \<and> length xs \<le> q + i \<longrightarrow>
        Weight (\<sigma> (xs ! q)) \<le> Weight (\<sigma> (xs ! p)))"

subsection \<open>Requests, responses and the upstream\<close>

text \<open>
  An \<^verbatim>\<open>http.Header\<close> is the list of its (key, value) entries in the order they were
  added; the order of two entries with different keys carries no meaning. Keys are in
  the canonical form of \<^verbatim>\<open>net/http\<close>.
\<close>

type_synonym header = "(string \<times> string) list"

definition Add :: "string \<Rightarrow> string \<Rightarrow> header \<Rightarrow> header" where
  "Add key v h = h @ [(key, v)]"

definition Del :: "string \<Rightarrow> header \<Rightarrow> header" where
  "Del key h = filter (\<lambda>(k, v). k \<noteq> key) h"

definition Set_header :: "string \<Rightarrow> string \<Rightarrow> header \<Rightarrow> header" where
  "Set_header key v h = Del key h @ [(key, v)]"

text \<open>
  The inbound request as the handler reads it: \<open>Body_req\<close> is what \<^verbatim>\<open>io.ReadAll\<close> gets
  from the body and \<open>BodyErr\<close> the error it ends with, if any.
\<close>

record Request =
  Method :: string
  Header_req :: header
  ContentLength :: int
  Body_req :: string
  BodyErr :: "string option"

text \<open>
  What has been written to the \<^verbatim>\<open>http.ResponseWriter\<close>: its header map, the status of
  the first \<^verbatim>\<open>WriteHeader\<close> (a later one is ignored), and the writes to the body, each
  either raw bytes or the JSON encoding of a response envelope.
\<close>

datatype written = Bytes string | JSON JSONRPCResponse

record ResponseWriter =
  w_header :: header
  w_status :: "int option"
  w_body :: "written list"

definition WriteHeader :: "int \<Rightarrow> ResponseWriter \<Rightarrow> ResponseWriter" where
  "WriteHeader code w = (case w_status w of None \<Rightarrow> w\<lparr>w_status := Some code\<rparr> | Some c \<Rightarrow> w)"

definition Write :: "written \<Rightarrow> ResponseWriter \<Rightarrow> ResponseWriter" where
  "Write b w = (WriteHeader 200 w)\<lparr>w_body := w_body w @ [b]\<rparr>"

text \<open>\<^verbatim>\<open>http.Error\<close> of the standard library, from its documentation.\<close>

definition http_Error :: "ResponseWriter \<Rightarrow> string \<Rightarrow> int \<Rightarrow> ResponseWriter" where
  "http_Error w msg code =
     Write (Bytes (msg @ [CHR 0x0A]))
       (WriteHeader code
         (w\<lparr>w_header := Set_header ''X-Content-Type-Options'' ''nosniff''
              (Set_header ''Content-Type'' ''text/plain; charset=utf-8''
                (Del ''Content-Length'' (w_header w)))\<rparr>))"

definition writeErrorResponse :: "ResponseWriter \<Rightarrow> int \<Rightarrow> string \<Rightarrow> json \<Rightarrow> ResponseWriter" where
  "writeErrorResponse w code message data =
     Write (JSON \<lparr>Jsonrpc = ''2.0'', Result = JNull,
                  Error = Some \<lparr>Code = code, Message = message, Data = data\<rparr>,
                  RespID = JNull\<rparr>)
       (WriteHeader 200
         (w\<lparr>w_header := Set_header ''Content-Type'' ''application/json'' (w_header w)\<rparr>))"

definition copyResponse :: "ResponseWriter \<Rightarrow> HTTPResponse \<Rightarrow> ResponseWriter" where
  "copyResponse w resp =
     Write (Bytes (Body resp))
       (WriteHeader (StatusCode resp) (w\<lparr>w_header := w_header w @ Header resp\<rparr>))"

text \<open>
  An upstream HTTP call, and what the proxy meets outside the program:
  \<^verbatim>\<open>http.NewRequestWithContext\<close> fails on some URLs (\<open>Some\<close> the error), and
  \<^verbatim>\<open>s.client.Do\<close> gives the \<open>i\<close>-th attempt of a request either a transport error
  (\<open>Inl\<close>) or a response.
\<close>

record UpstreamRequest =
  up_url :: string
  up_header :: header
  up_body :: string

record proxy_env =
  newRequestError :: "string \<Rightarrow> string option"
  client_Do :: "nat \<Rightarrow> UpstreamRequest \<Rightarrow> string + HTTPResponse"

text \<open>
  The state the handler runs in: the heap of endpoints and the log of the upstream HTTP
  calls issued so far.
\<close>

record world =
  endpoints :: heap
  calls :: "UpstreamRequest list"

subsection \<open>Forwarding\<close>

text \<open>
  The request \<^verbatim>\<open>forwardRequest\<close> builds for an endpoint: a POST of the body to the
  endpoint's URL, with the caller's headers but \<^verbatim>\<open>Host\<close> and \<^verbatim>\<open>Content-Length\<close>, and
  the content type forced.
\<close>

definition upstreamRequest :: "heap \<Rightarrow> addr \<Rightarrow> string \<Rightarrow> header \<Rightarrow> UpstreamRequest" where
  "upstreamRequest \<sigma> endpoint body headers =
     \<lparr>up_url = URL (\<sigma> endpoint),
      up_header = Set_header ''Content-Type'' ''application/json''
        (filter (\<lambda>(key, v). \<not> (key = ''Host'' \<or> key = ''Content-Length'')) headers),
      up_body = body\<rparr>"

definition forwardRequest ::
  "proxy_env \<Rightarrow> nat \<Rightarrow> world \<Rightarrow> addr \<Rightarrow> string \<Rightarrow> header \<Rightarrow> (string + HTTPResponse) \<times> world" where
  "forwardRequest env i wd endpoint body headers =
     (case newRequestError env (URL (endpoints wd endpoint)) of
        Some err \<Rightarrow> (Inl (''failed to create request: '' @ err), wd)
      | None \<Rightarrow>
          (let req = upstreamRequest (endpoints wd) endpoint body headers;
               wd1 = wd\<lparr>calls := calls wd @ [req]\<rparr>
           in case client_Do env i req of
                Inl err \<Rightarrow> (Inl (''request failed: '' @ err), wd1)
              | Inr resp \<Rightarrow> (Inr resp, wd1)))"

text \<open>
  The loop of \<^verbatim>\<open>handleRPCForChain\<close> over the sorted endpoints, from index \<open>i\<close> on:
  \<open>Inr\<close> the first response, or \<open>Inl\<close> the last error when every attempt failed.
\<close>

fun tryEndpoints ::
  "proxy_env \<Rightarrow> string \<Rightarrow> header \<Rightarrow> nat \<Rightarrow> addr list \<Rightarrow> string option \<Rightarrow> world \<Rightarrow>
     (string option + HTTPResponse) \<times> world" where
  "tryEndpoints env body headers i [] lastErr wd = (Inl lastErr, wd)"
| "tryEndpoints env body headers i (endpoint # rest) lastErr wd =
     (case forwardRequest env i wd endpoint body headers of
        (Inl err, wd1) \<Rightarrow> tryEndpoints env body headers (i + 1) rest (Some err) wd1
      | (Inr resp, wd1) \<Rightarrow> (Inr resp, wd1))"

text \<open>
  Reading the body. A POST whose declared length is between 1 and 999 has its body read
  once for the log preview, with the error dropped, and read again from the buffer of
  what was read; any other request reports the error of the read.
\<close>

definition readBody :: "Request \<Rightarrow> string + string" where
  "readBody r =
     (if Method r = ''POST'' \<and> ContentLength r > 0 \<and> ContentLength r < 1000
      then Inr (Body_req r)
      else case BodyErr r of Some err \<Rightarrow> Inl err | None \<Rightarrow> Inr (Body_req r))"

text \<open>The handler ends with a response written, or panics (a nil error dereferenced).\<close>

datatype outcome = Responded ResponseWriter | Panicked

definition handleRPCForChain ::
  "proxy_env \<Rightarrow> 'c MultiChainChecker \<Rightarrow> ResponseWriter \<Rightarrow> Request \<Rightarrow> string \<Rightarrow> world \<Rightarrow>
     outcome \<times> world" where
  "handleRPCForChain env mc w r chainName wd =
     (if Method r \<noteq> ''POST'' \<and> Method r \<noteq> ''GET''
      then (Responded (http_Error w ''Method not allowed'' 405), wd)
      else
        (case readBody r of
           Inl err \<Rightarrow> (Responded (writeErrorResponse w (- 32700) ''Parse error'' JNull), wd)
         | Inr body \<Rightarrow>
             (let healthyEndpoints = GetHealthyEndpoints mc (endpoints wd) chainName in
              if length healthyEndpoints = 0
              then (Responded (writeErrorResponse w (- 32000)
                      (''No healthy RPC endpoints available for chain: '' @ chainName) JNull), wd)
              else
                (let sortedEndpoints = getSortedEndpointsByWeight (endpoints wd) healthyEndpoints
                 in case tryEndpoints env body (Header_req r) 0 sortedEndpoints None wd of
                      (Inr resp, wd1) \<Rightarrow> (Responded (copyResponse w resp), wd1)
                    | (Inl lastErr, wd1) \<Rightarrow>
                        (case lastErr of
                           None \<Rightarrow> (Panicked, wd1)
                         | Some err \<Rightarrow>
                             (Responded (writeErrorResponse w (- 32000)
                                ''All RPC endpoints failed'' (JString err)), wd1))))))"

text \<open>
  Attempt \<open>i\<close> of a request, on endpoint \<open>a\<close>, fails at transport with error \<open>err\<close>:
  the request is built and \<^verbatim>\<open>s.client.Do\<close> returns the error.
\<close>

definition transportFails ::
  "proxy_env \<Rightarrow> heap \<Rightarrow> string \<Rightarrow> header \<Rightarrow> nat \<Rightarrow> addr \<Rightarrow> string \<Rightarrow> bool" where
  "transportFails env \<sigma> body hdrs i a err \<longleftrightarrow>
     newRequestError env (URL (\<sigma> a)) = None \<and>
     client_Do env i (upstreamRequest \<sigma> a body hdrs) = Inl err"

section \<open>The runs of the system\<close>

text \<open>
  The states a run of the program can be in: the registry and the heap of endpoints. A
  run starts with a checker that is not running and with no endpoint marked healthy (the
  loaders of the configuration never set the flag: it is not a column of the database,
  and the fallback endpoints leave it out). Its steps are the calls of \<^verbatim>\<open>Start\<close>,
  \<^verbatim>\<open>AddChain\<close> and \<^verbatim>\<open>RemoveChain\<close>, a probe pass of a running goroutine, and the
  handling of a request by the proxy.
\<close>

inductive reachable :: "'c MultiChainChecker \<times> heap \<Rightarrow> bool" where
  initial:
    "\<not> isRunning mc \<Longrightarrow> probers mc = [] \<Longrightarrow> \<forall>a. \<not> Healthy (\<sigma> a) \<Longrightarrow> reachable (mc, \<sigma>)"
| started: "reachable (mc, \<sigma>) \<Longrightarrow> reachable (Start mc, \<sigma>)"
| added: "reachable (mc, \<sigma>) \<Longrightarrow> reachable (AddChain chainName chainConfig mc, \<sigma>)"
| removed: "reachable (mc, \<sigma>) \<Longrightarrow> reachable (RemoveChain chainName mc, \<sigma>)"
| probed: "reachable (mc, \<sigma>) \<Longrightarrow> reachable (mc, proberPass k envs mc \<sigma>)"
| forwarded:
    "reachable (mc, endpoints wd) \<Longrightarrow>
       reachable (mc, endpoints (snd (handleRPCForChain env mc w r chainName wd)))"

section \<open>Example data\<close>

text \<open>
  Concrete inputs for the closed theorems below: an endpoint of the fallback
  configuration, and probe environments whose every attempt meets the same outcome. The
  text of a reply body is opaque to the model; the decoders of the environment give its
  content.
\<close>

definition example_endpoint :: RPCEndpoint where
  "example_endpoint =
     \<lparr>ID = 1, Name = ''Ethereum-LlamaRPC'', URL = ''https://eth.llamarpc.com'', Weight = 3,
      Enabled = True, ChainID = 1, ChainName = ''ethereum'', Healthy = True, LastCheck = 0,
      ResponseTime = 0, BlockNumber = ''0'', CreatedAt = 0, UpdatedAt = 0, FailCount = 0\<rparr>"

definition example_config :: HealthCheckConfig where
  "example_config = \<lparr>Interval = 30, Timeout = 5, Retries = 3\<rparr>"

definition reply :: "int \<Rightarrow> string \<Rightarrow> HTTPResponse" where
  "reply code body = \<lparr>StatusCode = code, Header = [], Body = body\<rparr>"

definition decode_result :: "string \<Rightarrow> (string \<rightharpoonup> json) option" where
  "decode_result body =
     (if body = ''malformed'' then None
      else Some [''jsonrpc'' \<mapsto> JString ''2.0'', ''id'' \<mapsto> JNumber ''1'',
                 ''result'' \<mapsto> JString body])"

definition decode_rpc :: "string \<Rightarrow> JSONRPCResponse option" where
  "decode_rpc body =
     (if body = ''malformed'' then None
      else Some \<lparr>Jsonrpc = ''2.0'', Result = JString body, Error = None,
                  RespID = JNumber ''1''\<rparr>)"

definition env_always :: "(string + HTTPResponse) \<Rightarrow> probe_env" where
  "env_always outcome =
     \<lparr>marshalErr = False, newRequestErr = False, ctxDone = (\<lambda>i. False),
      clientDo = (\<lambda>i. outcome), decodeMap = decode_result, decodeRPC = decode_rpc,
      now = 1000, elapsed = 42\<rparr>"

text \<open>
  The three endpoints of the fallback configuration of chain \<^verbatim>\<open>ethereum\<close>, at the
  addresses 0, 1 and 2, every one marked healthy, and a registry that holds the chain.
\<close>

definition endpoint_B :: RPCEndpoint where
  "endpoint_B =
     example_endpoint\<lparr>ID := 2, Name := ''Ethereum-PublicNode'',
       URL := ''https://ethereum.publicnode.com'', Weight := 2\<rparr>"

definition endpoint_C :: RPCEndpoint where
  "endpoint_C =
     example_endpoint\<lparr>ID := 3, Name := ''Ethereum-Cloudflare'',
       URL := ''https://cloudflare-eth.com'', Weight := 2\<rparr>"

definition example_heap :: heap where
  "example_heap a = (if a = 0 then example_endpoint else if a = 1 then endpoint_B else endpoint_C)"

definition example_chain :: "unit ChainConfig" where
  "example_chain = \<lparr>Chain = (), Endpoints = [0, 1, 2]\<rparr>"

definition example_checker :: "unit MultiChainChecker" where
  "example_checker =
     \<lparr>chains = [(''ethereum'', example_chain)], healthConfig = example_config,
      isRunning = False, probers = []\<rparr>"

text \<open>
  A request, a response writer as the CORS middleware hands it over, and upstreams: one
  where the endpoint of weight 3 times out and the others answer, one where every
  endpoint times out.
\<close>

definition example_request :: Request where
  "example_request =
     \<lparr>Method = ''POST'', Header_req = [(''Host'', ''proxy''), (''Accept'', ''*/*'')],
      ContentLength = 60, Body_req = ''eth_blockNumber'', BodyErr = None\<rparr>"

definition example_writer :: ResponseWriter where
  "example_writer =
     \<lparr>w_header = [(''Access-Control-Allow-Origin'', ''*'')], w_status = None, w_body = []\<rparr>"

definition example_world :: world where
  "example_world = \<lparr>endpoints = example_heap, calls = []\<rparr>"

definition upstream_first_down :: proxy_env where
  "upstream_first_down =
     \<lparr>newRequestError = (\<lambda>url. None),
      client_Do = (\<lambda>i req. if up_url req = ''https://eth.llamarpc.com'' then Inl ''timeout''
                            else Inr (reply 200 (up_url req)))\<rparr>"

definition upstream_all_down :: proxy_env where
  "upstream_all_down =
     \<lparr>newRequestError = (\<lambda>url. None),
      client_Do = (\<lambda>i req. Inl (''timeout '' @ up_url req))\<rparr>"

text \<open>
  A probe environment whose first attempt times out and whose later attempts get the
  reply with the given body.
\<close>

definition env_second_attempt :: "string \<Rightarrow> probe_env" where
  "env_second_attempt body =
     \<lparr>marshalErr = False, newRequestErr = False, ctxDone = (\<lambda>i. False),
      clientDo = (\<lambda>i. if i = 0 then Inl ''timeout'' else Inr (reply 200 body)),
      decodeMap = decode_result, decodeRPC = decode_rpc, now = 1000, elapsed = 42\<rparr>"

text \<open>
  The heap at the start of a run: the three endpoints with no healthy flag set, the
  second one disabled.
\<close>

definition initial_heap :: heap where
  "initial_heap a =
     (if a = 1 then endpoint_B\<lparr>Enabled := False, Healthy := False\<rparr>
      else (example_heap a)\<lparr>Healthy := False\<rparr>)"

section \<open>Recovery on a successful probe\<close>

lemma SetHealthy_True [simp]:
  "Healthy (SetHealthy t True e) = True" "FailCount (SetHealthy t True e) = 0"
  by (simp_all add: SetHealthy_def)

lemma SetHealthy_False [simp]:
  "Healthy (SetHealthy t False e) = False"
  "FailCount (SetHealthy t False e) = wrap_int (FailCount e + 1)"
  by (simp_all add: SetHealthy_def)

lemma wrap_int_id: "- (2 ^ 63) \<le> x \<Longrightarrow> x < 2 ^ 63 \<Longrightarrow> wrap_int x = x"
  by (simp add: wrap_int_def)

lemma SetResponseTime_fields [simp]:
  "Healthy (SetResponseTime rt e) = Healthy e" "FailCount (SetResponseTime rt e) = FailCount e"
  "BlockNumber (SetResponseTime rt e) = BlockNumber e"
  by (simp_all add: SetResponseTime_def)

lemma SetBlockNumber_fields [simp]:
  "Healthy (SetBlockNumber bn e) = Healthy e" "FailCount (SetBlockNumber bn e) = FailCount e"
  "BlockNumber (SetBlockNumber bn e) = bn"
  by (simp_all add: SetBlockNumber_def)

lemma SetHealthy_BlockNumber [simp]: "BlockNumber (SetHealthy t h e) = BlockNumber e"
  by (simp add: SetHealthy_def)

lemma processHealthCheckResponse_accepts:
  assumes "StatusCode resp = 200" and "decodeMap env (Body resp) = Some m"
    and "\<not> hasError m" and "blockNumberOf m = Some n"
  shows "processHealthCheckResponse env e resp =
           (True, SetHealthy (now env) True
                    (SetBlockNumber (Sprintf_d n) (SetResponseTime (elapsed env) e)))"
  using assms by (auto simp: processHealthCheckResponse_def)

lemma example_heap_simps [simp]:
  "example_heap 0 = example_endpoint" "example_heap (Suc 0) = endpoint_B"
  "example_heap 1 = endpoint_B" "example_heap 2 = endpoint_C"
  by (simp_all add: example_heap_def)

lemma example_endpoints_simps [simp]:
  "Healthy example_endpoint" "Healthy endpoint_B" "Healthy endpoint_C"
  "Enabled example_endpoint" "Enabled endpoint_B" "Enabled endpoint_C"
  "Weight example_endpoint = 3" "Weight endpoint_B = 2" "Weight endpoint_C = 2"
  by (simp_all add: example_endpoint_def endpoint_B_def endpoint_C_def)

declare attemptLoop.simps [simp del]

lemma processHealthCheckResponse_verdict:
  "fst (processHealthCheckResponse env e resp) = True \<and>
   ((Healthy (snd (processHealthCheckResponse env e resp)) \<and>
     FailCount (snd (processHealthCheckResponse env e resp)) = 0) \<or>
    (\<not> Healthy (snd (processHealthCheckResponse env e resp)) \<and>
     FailCount (snd (processHealthCheckResponse env e resp)) = wrap_int (FailCount e + 1)))"
  by (simp add: processHealthCheckResponse_def Let_def split: option.split)

lemma processHealthCheckResponse_Healthy:
  "Healthy (snd (processHealthCheckResponse env e resp)) \<longleftrightarrow>
     StatusCode resp = 200 \<and>
     (\<exists>m n. decodeMap env (Body resp) = Some m \<and> \<not> hasError m \<and> blockNumberOf m = Some n)"
  by (auto simp: processHealthCheckResponse_def Let_def split: option.splits)

text \<open>
  A pass of the multi-chain checker whose attempt \<open>k\<close> is the first to get a reply, with
  the pass not cancelled before it, ends as \<^verbatim>\<open>processHealthCheckResponse\<close> leaves the
  endpoint on that reply.
\<close>

lemma attemptLoop_reply:
  assumes "int k < retries" and "i \<le> k"
    and "\<forall>j<k. isl (clientDo env j)"
    and "\<forall>j\<le>k. 0 < j \<longrightarrow> \<not> ctxDone env j"
    and "clientDo env k = Inr resp"
  shows "attemptLoop env retries i e = snd (processHealthCheckResponse env e resp)"
  using assms
proof (induction "k - i" arbitrary: i)
  case 0
  then have "i = k" by simp
  with "0.prems" processHealthCheckResponse_verdict [of env e resp] show ?case
    by (subst attemptLoop.simps) (auto simp: case_prod_beta)
next
  case (Suc d)
  then have lt: "i < k" by simp
  with Suc.prems obtain err where err: "clientDo env i = Inl err"
    by (metis isl_def)
  from Suc.hyps(2) lt have "d = k - (i + 1)" by simp
  from Suc.hyps(1) [OF this] Suc.prems lt
  have "attemptLoop env retries (i + 1) e = snd (processHealthCheckResponse env e resp)"
    by simp
  with Suc.prems lt err show ?case
    by (subst attemptLoop.simps) auto
qed

lemma checkEndpointHealth_reply:
  assumes "\<not> marshalErr env" and "\<not> newRequestErr env" and "int k < Retries hc"
    and "\<forall>j<k. isl (clientDo env j)"
    and "\<forall>j\<le>k. 0 < j \<longrightarrow> \<not> ctxDone env j"
    and "clientDo env k = Inr resp"
  shows "checkEndpointHealth env hc e = snd (processHealthCheckResponse env e resp)"
  using assms attemptLoop_reply [of k "Retries hc" 0 env resp e]
  by (simp add: checkEndpointHealth_def)

lemma checkEndpoint_accepts:
  "\<not> marshalErr env \<Longrightarrow> \<not> newRequestErr env \<Longrightarrow> clientDo env 0 = Inr resp \<Longrightarrow>
   StatusCode resp = 200 \<Longrightarrow> decodeRPC env (Body resp) = Some r \<Longrightarrow> Error r = None \<Longrightarrow>
   Result r = JString s \<Longrightarrow>
     checkEndpoint env c e = markHealthy (now env) e (elapsed env) s"
  by (simp add: checkEndpoint_def)

text \<open>
  C2. A single successful probe sets the healthy flag and resets the consecutive-failure
  counter to 0, whatever the flag and the counter were before. This holds of
  \<^verbatim>\<open>SetHealthy(true)\<close> itself and of \<^verbatim>\<open>markHealthy\<close>; of a reply that
  \<^verbatim>\<open>processHealthCheckResponse\<close> accepts (status 200, a decodable body with no error, a
  block number that parses); of a whole pass of the multi-chain checker
  (\<^verbatim>\<open>checkEndpointHealth\<close>) in which the attempts before attempt \<open>k\<close> fail at transport,
  the pass is not cancelled, and attempt \<open>k\<close>, within the \<^verbatim>\<open>Retries\<close> allowed, gets such
  a reply; and of a probe of the single-chain checker (\<^verbatim>\<open>checkEndpoint\<close>) that gets a
  reply with status 200, no error and a string as result. In particular an endpoint
  marked unhealthy is healthy right after one such probe.
\<close>

theorem success_resets_failures:
  "Healthy (SetHealthy t True e) \<and> FailCount (SetHealthy t True e) = 0 \<and>
   Healthy (markHealthy t e rt bn) \<and> FailCount (markHealthy t e rt bn) = 0 \<and>
   (StatusCode resp = 200 \<and> decodeMap env (Body resp) = Some m \<and>
    \<not> hasError m \<and> blockNumberOf m = Some n \<longrightarrow>
      Healthy (snd (processHealthCheckResponse env e resp)) \<and>
      FailCount (snd (processHealthCheckResponse env e resp)) = 0) \<and>
   (\<not> marshalErr env \<and> \<not> newRequestErr env \<and> int k < Retries hc \<and>
    (\<forall>j<k. isl (clientDo env j)) \<and> (\<forall>j\<le>k. 0 < j \<longrightarrow> \<not> ctxDone env j) \<and>
    clientDo env k = Inr resp \<and>
    StatusCode resp = 200 \<and> decodeMap env (Body resp) = Some m \<and>
    \<not> hasError m \<and> blockNumberOf m = Some n \<longrightarrow>
      Healthy (checkEndpointHealth env hc e) \<and>
      FailCount (checkEndpointHealth env hc e) = 0) \<and>
   (\<not> marshalErr env \<and> \<not> newRequestErr env \<and> clientDo env 0 = Inr resp \<and>
    StatusCode resp = 200 \<and> decodeRPC env (Body resp) = Some r \<and> Error r = None \<and>
    Result r = JString s \<longrightarrow>
      Healthy (checkEndpoint env c e) \<and> FailCount (checkEndpoint env c e) = 0)"
proof (intro conjI impI)
  assume a: "\<not> marshalErr env \<and> \<not> newRequestErr env \<and> int k < Retries hc \<and>
    (\<forall>j<k. isl (clientDo env j)) \<and> (\<forall>j\<le>k. 0 < j \<longrightarrow> \<not> ctxDone env j) \<and>
    clientDo env k = Inr resp \<and>
    StatusCode resp = 200 \<and> decodeMap env (Body resp) = Some m \<and>
    \<not> hasError m \<and> blockNumberOf m = Some n"
  then have "checkEndpointHealth env hc e = snd (processHealthCheckResponse env e resp)"
    by (intro checkEndpointHealth_reply [where k = k]) simp_all
  with a show "Healthy (checkEndpointHealth env hc e)"
    and "FailCount (checkEndpointHealth env hc e) = 0"
    by (simp_all add: processHealthCheckResponse_accepts)
next
  assume a: "\<not> marshalErr env \<and> \<not> newRequestErr env \<and> clientDo env 0 = Inr resp \<and>
    StatusCode resp = 200 \<and> decodeRPC env (Body resp) = Some r \<and> Error r = None \<and>
    Result r = JString s"
  then have "checkEndpoint env c e = markHealthy (now env) e (elapsed env) s"
    by (simp add: checkEndpoint_accepts)
  then show "Healthy (checkEndpoint env c e)" and "FailCount (checkEndpoint env c e) = 0"
    by (simp_all add: markHealthy_def)
qed (simp_all add: markHealthy_def processHealthCheckResponse_accepts)

lemma blockNumberOf_0x10: "blockNumberOf [''result'' \<mapsto> JString ''0x10''] = Some 16"
  by (simp add: blockNumberOf_def HasPrefix_def ParseInt_def digitVal_def)

lemma decode_result_0x10:
  "\<not> hasError (the (decode_result ''0x10'')) \<and>
   blockNumberOf (the (decode_result ''0x10'')) = Some 16"
  by (simp add: decode_result_def hasError_def blockNumberOf_def HasPrefix_def ParseInt_def
      digitVal_def)

theorem success_resets_failures_witness:
  "\<not> Healthy (example_endpoint\<lparr>Healthy := False, FailCount := 5\<rparr>) \<and>
   FailCount (example_endpoint\<lparr>Healthy := False, FailCount := 5\<rparr>) = 5 \<and>
   \<not> marshalErr (env_second_attempt ''0x10'') \<and> \<not> newRequestErr (env_second_attempt ''0x10'') \<and>
   int 1 < Retries example_config \<and>
   isl (clientDo (env_second_attempt ''0x10'') 0) \<and>
   \<not> ctxDone (env_second_attempt ''0x10'') 1 \<and>
   clientDo (env_second_attempt ''0x10'') 1 = Inr (reply 200 ''0x10'') \<and>
   StatusCode (reply 200 ''0x10'') = 200 \<and>
   decodeMap (env_second_attempt ''0x10'') (Body (reply 200 ''0x10'')) =
     Some (the (decode_result ''0x10'')) \<and>
   Healthy (snd (processHealthCheckResponse (env_second_attempt ''0x10'')
                  (example_endpoint\<lparr>Healthy := False, FailCount := 5\<rparr>) (reply 200 ''0x10''))) \<and>
   FailCount (snd (processHealthCheckResponse (env_second_attempt ''0x10'')
                  (example_endpoint\<lparr>Healthy := False, FailCount := 5\<rparr>) (reply 200 ''0x10''))) = 0 \<and>
   Healthy (checkEndpointHealth (env_second_attempt ''0x10'') example_config
              (example_endpoint\<lparr>Healthy := False, FailCount := 5\<rparr>)) \<and>
   FailCount (checkEndpointHealth (env_second_attempt ''0x10'') example_config
              (example_endpoint\<lparr>Healthy := False, FailCount := 5\<rparr>)) = 0 \<and>
   clientDo (env_always (Inr (reply 200 ''0x10''))) 0 = Inr (reply 200 ''0x10'') \<and>
   decodeRPC (env_always (Inr (reply 200 ''0x10''))) (Body (reply 200 ''0x10'')) =
     Some (the (decode_rpc ''0x10'')) \<and>
   Error (the (decode_rpc ''0x10'')) = None \<and>
   Result (the (decode_rpc ''0x10'')) = JString ''0x10'' \<and>
   Healthy (checkEndpoint (env_always (Inr (reply 200 ''0x10''))) example_config
              (example_endpoint\<lparr>Healthy := False, FailCount := 5\<rparr>)) \<and>
   FailCount (checkEndpoint (env_always (Inr (reply 200 ''0x10''))) example_config
              (example_endpoint\<lparr>Healthy := False, FailCount := 5\<rparr>)) = 0"
proof -
  let ?U = "example_endpoint\<lparr>Healthy := False, FailCount := 5\<rparr>"
  let ?R = "reply 200 ''0x10''"
  let ?E = "env_second_attempt ''0x10''"
  let ?L = "env_always (Inr ?R)"
  let ?M = "the (decode_result ''0x10'')"
  let ?P = "the (decode_rpc ''0x10'')"
  have u: "\<not> Healthy ?U" "FailCount ?U = 5" by simp_all
  have e: "\<not> marshalErr ?E" "\<not> newRequestErr ?E" "int 1 < Retries example_config"
    "isl (clientDo ?E 0)" "\<not> ctxDone ?E 1" "clientDo ?E 1 = Inr ?R"
    by (simp_all add: env_second_attempt_def example_config_def)
  from e(4,5) have q: "\<forall>j<1. isl (clientDo ?E j)" "\<forall>j\<le>1. 0 < j \<longrightarrow> \<not> ctxDone ?E j"
    by (simp_all add: le_Suc_eq)
  have r: "StatusCode ?R = 200" "decodeMap ?E (Body ?R) = Some ?M"
    by (simp_all add: reply_def env_second_attempt_def decode_result_def)
  have m: "\<not> hasError ?M" "blockNumberOf ?M = Some 16"
    using decode_result_0x10 by simp_all
  have l: "\<not> marshalErr ?L" "\<not> newRequestErr ?L" "clientDo ?L 0 = Inr ?R"
    "decodeRPC ?L (Body ?R) = Some ?P" "Error ?P = None" "Result ?P = JString ''0x10''"
    by (simp_all add: env_always_def reply_def decode_rpc_def)
  note A = success_resets_failures [where e = ?U and resp = ?R and env = ?E and m = ?M
      and n = 16 and k = 1 and hc = example_config]
  note B = success_resets_failures [where e = ?U and resp = ?R and env = ?L
      and r = ?P and s = "''0x10''" and c = example_config]
  from A r m have c1: "Healthy (snd (processHealthCheckResponse ?E ?U ?R))"
    "FailCount (snd (processHealthCheckResponse ?E ?U ?R)) = 0"
    by blast+
  from A e(1,2,3,6) q r m have c2: "Healthy (checkEndpointHealth ?E example_config ?U)"
    "FailCount (checkEndpointHealth ?E example_config ?U) = 0"
    by blast+
  from B l r(1) have c3: "Healthy (checkEndpoint ?L example_config ?U)"
    "FailCount (checkEndpoint ?L example_config ?U) = 0"
    by blast+
  from u e r l c1 c2 c3 show ?thesis by blast
qed

section \<open>Failed probe passes\<close>

text \<open>
  Whatever the attempts of a pass meet, the pass writes the health flag once: it ends
  either healthy with the counter at 0, or unhealthy with the counter incremented once.
\<close>

lemma attemptLoop_verdict:
  "(Healthy (attemptLoop env r i e) \<and> FailCount (attemptLoop env r i e) = 0) \<or>
   (\<not> Healthy (attemptLoop env r i e) \<and>
    FailCount (attemptLoop env r i e) = wrap_int (FailCount e + 1))"
proof (induction env r i e rule: attemptLoop.induct)
  case (1 env retries attempt endpoint)
  show ?case
  proof (cases "int attempt < retries \<and> \<not> (attempt > 0 \<and> ctxDone env attempt)")
    case False
    then show ?thesis by (subst (1 2 3 4) attemptLoop.simps) auto
  next
    case True
    show ?thesis
    proof (cases "clientDo env attempt")
      case (Inl err)
      with True 1(1) [of err] show ?thesis
        by (subst (1 2 3 4) attemptLoop.simps) auto
    next
      case (Inr resp)
      with True processHealthCheckResponse_verdict [of env endpoint resp] show ?thesis
        by (subst (1 2 3 4) attemptLoop.simps) (auto simp: case_prod_beta)
    qed
  qed
qed

lemma attemptLoop_all_errors:
  "\<forall>i. isl (clientDo env i) \<Longrightarrow> \<not> Healthy (attemptLoop env r i e)"
proof (induction env r i e rule: attemptLoop.induct)
  case (1 env retries attempt endpoint)
  from 1(3) obtain err where err: "clientDo env attempt = Inl err"
    by (metis isl_def)
  show ?case
    using 1(1) [OF _ _ err] 1(3) err
    by (subst attemptLoop.simps) auto
qed

lemma checkEndpointHealth_verdict:
  "(Healthy (checkEndpointHealth env hc e) \<and> FailCount (checkEndpointHealth env hc e) = 0) \<or>
   (\<not> Healthy (checkEndpointHealth env hc e) \<and>
    FailCount (checkEndpointHealth env hc e) = wrap_int (FailCount e + 1))"
  using attemptLoop_verdict [of env "Retries hc" 0 e]
  by (simp add: checkEndpointHealth_def)

lemma checkEndpointHealth_all_errors:
  "\<forall>i. isl (clientDo env i) \<Longrightarrow> \<not> Healthy (checkEndpointHealth env hc e)"
  using attemptLoop_all_errors [of env "Retries hc" 0 e]
  by (simp add: checkEndpointHealth_def)

lemma wrap_int_Suc:
  "- (2 ^ 63) \<le> x \<Longrightarrow> x < 2 ^ 63 - 1 \<Longrightarrow> wrap_int (x + 1) = x + 1"
  by (rule wrap_int_id) simp_all

lemma markUnhealthy_below:
  "- (2 ^ 63) \<le> FailCount e \<Longrightarrow> FailCount e < 2 ^ 63 - 1 \<Longrightarrow> FailCount e + 1 < Retries c \<Longrightarrow>
     Healthy (markUnhealthy c t e rt bn) = Healthy e \<and>
     FailCount (markUnhealthy c t e rt bn) = FailCount e + 1"
  by (simp add: markUnhealthy_def IncrementFailCount_def Let_def wrap_int_Suc)

lemma markUnhealthy_reached:
  "- (2 ^ 63) \<le> FailCount e \<Longrightarrow> FailCount e < 2 ^ 63 - 1 \<Longrightarrow> Retries c \<le> FailCount e + 1 \<Longrightarrow>
     \<not> Healthy (markUnhealthy c t e rt bn)"
  by (simp add: markUnhealthy_def IncrementFailCount_def Let_def wrap_int_Suc)

lemma markUnhealthy_tolerates:
  "Healthy e \<Longrightarrow> FailCount e = 0 \<Longrightarrow> int n < Retries c \<Longrightarrow> Retries c < 2 ^ 63 \<Longrightarrow>
     Healthy (((\<lambda>x. markUnhealthy c t x rt bn) ^^ n) e) \<and>
     FailCount (((\<lambda>x. markUnhealthy c t x rt bn) ^^ n) e) = int n"
proof (induction n)
  case 0
  then show ?case by simp
next
  case (Suc n)
  then have ih: "Healthy (((\<lambda>x. markUnhealthy c t x rt bn) ^^ n) e)"
      "FailCount (((\<lambda>x. markUnhealthy c t x rt bn) ^^ n) e) = int n"
    by simp_all
  from Suc.prems ih(2)
  have b: "- (2 ^ 63) \<le> FailCount (((\<lambda>x. markUnhealthy c t x rt bn) ^^ n) e)"
    "FailCount (((\<lambda>x. markUnhealthy c t x rt bn) ^^ n) e) < 2 ^ 63 - 1"
    "FailCount (((\<lambda>x. markUnhealthy c t x rt bn) ^^ n) e) + 1 < Retries c"
    by simp_all
  from markUnhealthy_below [OF b, of t rt bn] ih show ?case
    by simp
qed

text \<open>
  C1, as amended. The two checkers differ. In the multi-chain checker
  (\<^verbatim>\<open>checkEndpointHealth\<close>) a pass that ends unhealthy has raised the counter by exactly
  one, however many attempts it made (for a counter below the largest \<^verbatim>\<open>int\<close>, where
  the increment does not wrap around), and a pass whose every attempt fails at transport,
  whose request cannot be built, or whose first reply is not an accepted one, ends
  unhealthy at once: no threshold is consulted, \<^verbatim>\<open>Retries\<close> only bounds the attempts of
  the pass. In the single-chain checker (\<^verbatim>\<open>markUnhealthy\<close>), for a counter
  below the largest \<^verbatim>\<open>int\<close>, a failed probe whose raised counter is still below
  \<^verbatim>\<open>Retries\<close> leaves the healthy flag as it was and raises the counter by exactly one;
  once the raised counter reaches \<^verbatim>\<open>Retries\<close> the flag is false; so a healthy endpoint
  with counter 0 is still healthy after any \<open>n < Retries\<close> failed probes in a row.
\<close>

theorem failed_pass:
  "(- (2 ^ 63) \<le> FailCount e \<and> FailCount e < 2 ^ 63 - 1 \<and>
    \<not> Healthy (checkEndpointHealth env hc e) \<longrightarrow>
      FailCount (checkEndpointHealth env hc e) = FailCount e + 1) \<and>
   ((\<forall>i. isl (clientDo env i)) \<longrightarrow> \<not> Healthy (checkEndpointHealth env hc e)) \<and>
   (marshalErr env \<or> newRequestErr env \<longrightarrow> \<not> Healthy (checkEndpointHealth env hc e)) \<and>
   (\<not> marshalErr env \<and> \<not> newRequestErr env \<and> int k < Retries hc \<and>
    (\<forall>j<k. isl (clientDo env j)) \<and> (\<forall>j\<le>k. 0 < j \<longrightarrow> \<not> ctxDone env j) \<and>
    clientDo env k = Inr resp \<and>
    \<not> (StatusCode resp = 200 \<and>
       (\<exists>m n. decodeMap env (Body resp) = Some m \<and> \<not> hasError m \<and> blockNumberOf m = Some n)) \<longrightarrow>
      \<not> Healthy (checkEndpointHealth env hc e)) \<and>
   (- (2 ^ 63) \<le> FailCount e \<and> FailCount e < 2 ^ 63 - 1 \<and> FailCount e + 1 < Retries c \<longrightarrow>
      Healthy (markUnhealthy c t e rt bn) = Healthy e \<and>
      FailCount (markUnhealthy c t e rt bn) = FailCount e + 1) \<and>
   (- (2 ^ 63) \<le> FailCount e \<and> FailCount e < 2 ^ 63 - 1 \<and> Retries c \<le> FailCount e + 1 \<longrightarrow>
      \<not> Healthy (markUnhealthy c t e rt bn)) \<and>
   (Healthy e \<and> FailCount e = 0 \<and> int n < Retries c \<and> Retries c < 2 ^ 63 \<longrightarrow>
      Healthy (((\<lambda>x. markUnhealthy c t x rt bn) ^^ n) e))"
proof (intro conjI impI)
  assume a: "- (2 ^ 63) \<le> FailCount e \<and> FailCount e < 2 ^ 63 - 1 \<and>
    \<not> Healthy (checkEndpointHealth env hc e)"
  with checkEndpointHealth_verdict [of env hc e]
  have "FailCount (checkEndpointHealth env hc e) = wrap_int (FailCount e + 1)" by blast
  with a show "FailCount (checkEndpointHealth env hc e) = FailCount e + 1"
    by (simp add: wrap_int_Suc)
next
  assume "\<forall>i. isl (clientDo env i)"
  then show "\<not> Healthy (checkEndpointHealth env hc e)"
    by (rule checkEndpointHealth_all_errors)
next
  assume "marshalErr env \<or> newRequestErr env"
  then show "\<not> Healthy (checkEndpointHealth env hc e)"
    by (auto simp: checkEndpointHealth_def)
next
  assume a: "\<not> marshalErr env \<and> \<not> newRequestErr env \<and> int k < Retries hc \<and>
    (\<forall>j<k. isl (clientDo env j)) \<and> (\<forall>j\<le>k. 0 < j \<longrightarrow> \<not> ctxDone env j) \<and>
    clientDo env k = Inr resp \<and>
    \<not> (StatusCode resp = 200 \<and>
       (\<exists>m n. decodeMap env (Body resp) = Some m \<and> \<not> hasError m \<and> blockNumberOf m = Some n))"
  then have "checkEndpointHealth env hc e = snd (processHealthCheckResponse env e resp)"
    by (intro checkEndpointHealth_reply [where k = k]) simp_all
  with a show "\<not> Healthy (checkEndpointHealth env hc e)"
    by (simp only: processHealthCheckResponse_Healthy) simp
next
  assume a: "- (2 ^ 63) \<le> FailCount e \<and> FailCount e < 2 ^ 63 - 1 \<and> FailCount e + 1 < Retries c"
  then show "Healthy (markUnhealthy c t e rt bn) = Healthy e"
    and "FailCount (markUnhealthy c t e rt bn) = FailCount e + 1"
    using markUnhealthy_below [of e c t rt bn] by simp_all
next
  assume "- (2 ^ 63) \<le> FailCount e \<and> FailCount e < 2 ^ 63 - 1 \<and> Retries c \<le> FailCount e + 1"
  then show "\<not> Healthy (markUnhealthy c t e rt bn)"
    using markUnhealthy_reached [of e c t rt bn] by simp
next
  assume "Healthy e \<and> FailCount e = 0 \<and> int n < Retries c \<and> Retries c < 2 ^ 63"
  then show "Healthy (((\<lambda>x. markUnhealthy c t x rt bn) ^^ n) e)"
    using markUnhealthy_tolerates [of e n c t rt bn] by simp
qed

theorem failed_pass_witness:
  "- (2 ^ 63) \<le> FailCount example_endpoint \<and> FailCount example_endpoint < 2 ^ 63 - 1 \<and>
   (\<forall>i. isl (clientDo (env_always (Inl ''timeout'')) i)) \<and>
   \<not> Healthy (checkEndpointHealth (env_always (Inl ''timeout'')) example_config example_endpoint) \<and>
   FailCount (checkEndpointHealth (env_always (Inl ''timeout'')) example_config example_endpoint) = 1 \<and>
   newRequestErr ((env_always (Inl ''timeout''))\<lparr>newRequestErr := True\<rparr>) \<and>
   \<not> Healthy (checkEndpointHealth ((env_always (Inl ''timeout''))\<lparr>newRequestErr := True\<rparr>)
                example_config example_endpoint) \<and>
   \<not> marshalErr (env_always (Inr (reply 503 ''busy''))) \<and>
   \<not> newRequestErr (env_always (Inr (reply 503 ''busy''))) \<and>
   int 0 < Retries example_config \<and>
   clientDo (env_always (Inr (reply 503 ''busy''))) 0 = Inr (reply 503 ''busy'') \<and>
   StatusCode (reply 503 ''busy'') \<noteq> 200 \<and>
   \<not> Healthy (checkEndpointHealth (env_always (Inr (reply 503 ''busy''))) example_config
                example_endpoint) \<and>
   Healthy example_endpoint \<and> FailCount example_endpoint = 0 \<and>
   FailCount example_endpoint + 1 < Retries example_config \<and>
   Healthy (markUnhealthy example_config 7 example_endpoint 0 []) \<and>
   FailCount (markUnhealthy example_config 7 example_endpoint 0 []) = 1 \<and>
   - (2 ^ 63) \<le> FailCount (example_endpoint\<lparr>FailCount := 2\<rparr>) \<and>
   FailCount (example_endpoint\<lparr>FailCount := 2\<rparr>) < 2 ^ 63 - 1 \<and>
   Retries example_config \<le> FailCount (example_endpoint\<lparr>FailCount := 2\<rparr>) + 1 \<and>
   \<not> Healthy (markUnhealthy example_config 7 (example_endpoint\<lparr>FailCount := 2\<rparr>) 0 []) \<and>
   int 2 < Retries example_config \<and> Retries example_config < 2 ^ 63 \<and>
   Healthy (((\<lambda>x. markUnhealthy example_config 7 x 0 []) ^^ 2) example_endpoint)"
proof -
  let ?T = "env_always (Inl ''timeout'')"
  let ?e2 = "example_endpoint\<lparr>FailCount := 2\<rparr>"
  have b: "- (2 ^ 63) \<le> FailCount example_endpoint" "FailCount example_endpoint < 2 ^ 63 - 1"
    "Healthy example_endpoint" "FailCount example_endpoint = 0"
    "FailCount example_endpoint + 1 < Retries example_config"
    by (simp_all add: example_endpoint_def example_config_def)
  have b2: "- (2 ^ 63) \<le> FailCount ?e2" "FailCount ?e2 < 2 ^ 63 - 1"
    "Retries example_config \<le> FailCount ?e2 + 1"
    by (simp_all add: example_config_def)
  have r: "int 2 < Retries example_config" "Retries example_config < 2 ^ 63"
    by (simp_all add: example_config_def)
  have t: "\<forall>i. isl (clientDo ?T i)" by (simp add: env_always_def)
  note A = failed_pass [where env = ?T and hc = example_config and e = example_endpoint
      and c = example_config and t = 7 and rt = 0 and bn = "[]" and n = 2]
  note B = failed_pass [where env = ?T and hc = example_config and e = ?e2
      and c = example_config and t = 7 and rt = 0 and bn = "[]" and n = 0]
  from A t have c1: "\<not> Healthy (checkEndpointHealth ?T example_config example_endpoint)"
    by blast
  with A b have "FailCount (checkEndpointHealth ?T example_config example_endpoint) =
      FailCount example_endpoint + 1"
    by blast
  with b(4) have c2: "FailCount (checkEndpointHealth ?T example_config example_endpoint) = 1"
    by simp
  from A b have "Healthy (markUnhealthy example_config 7 example_endpoint 0 []) =
      Healthy example_endpoint \<and>
    FailCount (markUnhealthy example_config 7 example_endpoint 0 []) =
      FailCount example_endpoint + 1"
    by blast
  with b(3,4) have c3: "Healthy (markUnhealthy example_config 7 example_endpoint 0 [])"
    "FailCount (markUnhealthy example_config 7 example_endpoint 0 []) = 1"
    by simp_all
  from B b2 have c4: "\<not> Healthy (markUnhealthy example_config 7 ?e2 0 [])"
    by blast
  from A b(3,4) r
  have c5: "Healthy (((\<lambda>x. markUnhealthy example_config 7 x 0 []) ^^ 2) example_endpoint)"
    by blast
  let ?N = "(env_always (Inl ''timeout''))\<lparr>newRequestErr := True\<rparr>"
  let ?B = "env_always (Inr (reply 503 ''busy''))"
  have n: "newRequestErr ?N" by simp
  note C = failed_pass [where env = ?N and hc = example_config and e = example_endpoint]
  from C n have c6: "\<not> Healthy (checkEndpointHealth ?N example_config example_endpoint)"
    by blast
  have q: "\<not> marshalErr ?B" "\<not> newRequestErr ?B" "int 0 < Retries example_config"
    "clientDo ?B 0 = Inr (reply 503 ''busy'')" "StatusCode (reply 503 ''busy'') \<noteq> 200"
    by (simp_all add: env_always_def example_config_def reply_def)
  have q': "\<forall>j<0. isl (clientDo ?B j)" "\<forall>j\<le>0. 0 < j \<longrightarrow> \<not> ctxDone ?B j"
    by simp_all
  note D = failed_pass [where env = ?B and hc = example_config and e = example_endpoint
      and k = 0 and resp = "reply 503 ''busy''"]
  from D q q' have c7: "\<not> Healthy (checkEndpointHealth ?B example_config example_endpoint)"
    by blast
  from b b2 r t c1 c2 c3 c4 c5 n c6 q c7 show ?thesis by blast
qed

text \<open>
  C1 as stated fails. In the multi-chain checker a healthy endpoint with counter 0 and
  \<^verbatim>\<open>Retries = 3\<close> is unhealthy after one failed pass, with the counter at 1, below the
  threshold. In the single-chain checker the pass on which the threshold is reached
  raises the counter by two (\<^verbatim>\<open>IncrementFailCount\<close>, then \<^verbatim>\<open>SetHealthy(false)\<close>).
\<close>

theorem failed_pass_counterexample:
  "Healthy example_endpoint \<and> FailCount example_endpoint = 0 \<and> Retries example_config = 3 \<and>
   \<not> Healthy (checkEndpointHealth (env_always (Inl ''timeout'')) example_config example_endpoint) \<and>
   FailCount (checkEndpointHealth (env_always (Inl ''timeout'')) example_config example_endpoint) = 1 \<and>
   FailCount (markUnhealthy example_config 7 (example_endpoint\<lparr>FailCount := 2\<rparr>) 0 []) = 4"
  by (simp add: example_endpoint_def example_config_def checkEndpointHealth_def env_always_def
      markUnhealthy_def IncrementFailCount_def attemptLoop.simps wrap_int_def)

section \<open>What a probe accepts\<close>

lemma HasPrefix_0x: "HasPrefix s ''0x'' \<longleftrightarrow> (\<exists>h. s = ''0x'' @ h)"
proof
  assume "HasPrefix s ''0x''"
  then have "take (length ''0x'') s = ''0x''" by (simp only: HasPrefix_def)
  then have "s = ''0x'' @ drop (length ''0x'') s" by (metis append_take_drop_id)
  then show "\<exists>h. s = ''0x'' @ h" ..
next
  assume "\<exists>h. s = ''0x'' @ h"
  then show "HasPrefix s ''0x''" by (auto simp: HasPrefix_def)
qed

lemma blockNumberOf_Some:
  "blockNumberOf m = Some n \<longleftrightarrow>
     (\<exists>h. m ''result'' = Some (JString (''0x'' @ h)) \<and> ParseInt h 16 64 = Some n)"
  by (auto simp: blockNumberOf_def HasPrefix_0x split: option.splits json.splits)

lemma ParseInt_range:
  assumes "ParseInt s b 64 = Some n"
  shows "- (2 ^ 63) \<le> n \<and> n < 2 ^ 63"
proof -
  have *: "int un < 2 ^ 63" if "un < 2 ^ 63" for un :: nat
    using that by (metis of_nat_less_iff of_nat_numeral of_nat_power)
  have **: "int un \<le> 2 ^ 63" if "un \<le> 2 ^ 63" for un :: nat
    using that by (metis of_nat_le_iff of_nat_numeral of_nat_power)
  from assms show ?thesis
    by (auto simp: ParseInt_def Let_def not_le not_less dest: * ** 
        split: if_splits option.splits)
qed

lemma digitVal_digit: "d < 10 \<Longrightarrow> digitVal (char_of (48 + d)) = Some d"
  by (simp add: digitVal_def Let_def)

lemma parseDigits_append:
  "parseDigits b n (xs @ ys) =
     (case parseDigits b n xs of None \<Rightarrow> None | Some m \<Rightarrow> parseDigits b m ys)"
  by (induction xs arbitrary: n) (auto split: option.splits)

declare digits10.simps [simp del]

lemma parseDigits_digits10: "parseDigits 10 0 (digits10 n) = Some n"
proof (induction n rule: digits10.induct)
  case (1 n)
  show ?case
  proof (cases "n < 10")
    case True
    then show ?thesis by (subst digits10.simps) (simp add: digitVal_digit)
  next
    case False
    with 1 have "parseDigits 10 0 (digits10 (n div 10)) = Some (n div 10)" by simp
    with False show ?thesis
      by (subst digits10.simps) (simp add: parseDigits_append digitVal_digit)
  qed
qed


lemma digitVal_sign: "digitVal CHR ''-'' = None" "digitVal CHR ''+'' = None"
  by (simp_all add: digitVal_def)

lemma digits10_chars: "c \<in> set (digits10 n) \<Longrightarrow> digitVal c \<noteq> None"
proof (induction n rule: digits10.induct)
  case (1 n)
  show ?case
  proof (cases "n < 10")
    case True
    with 1(2) have "c = char_of (48 + n)" by (subst (asm) digits10.simps) simp
    with True show ?thesis by (simp add: digitVal_digit)
  next
    case False
    with 1(2) have "c \<in> set (digits10 (n div 10)) \<or> c = char_of (48 + n mod 10)"
      by (subst (asm) digits10.simps) auto
    then show ?thesis using 1(1) [OF False] by (auto simp: digitVal_digit)
  qed
qed

lemma digits10_nonempty: "digits10 n \<noteq> []"
  by (subst digits10.simps) simp

lemma ParseInt_Sprintf_d:
  assumes "- (2 ^ 63) \<le> n" and "n < 2 ^ 63"
  shows "ParseInt (Sprintf_d n) 10 64 = Some n"
proof (cases "n < 0")
  case True
  have "nat (- n) \<le> 2 ^ 63" using assms(1) by (simp add: nat_le_iff)
  with True show ?thesis
    by (simp add: ParseInt_def Sprintf_d_def digits10_nonempty parseDigits_digits10 Let_def)
next
  case False
  have hd: "hd (digits10 (nat n)) \<in> set (digits10 (nat n))"
    by (simp add: digits10_nonempty)
  have "nat n < 2 ^ 63" using assms(2) False by (simp add: nat_less_iff)
  with False digits10_chars [OF hd] digitVal_sign show ?thesis
    by (auto simp: ParseInt_def Sprintf_d_def digits10_nonempty parseDigits_digits10 Let_def)
qed

lemma checkEndpoint_rejects:
  "\<not> (\<exists>resp r s. \<not> marshalErr env \<and> \<not> newRequestErr env \<and> clientDo env 0 = Inr resp \<and>
        StatusCode resp = 200 \<and> decodeRPC env (Body resp) = Some r \<and> Error r = None \<and>
        Result r = JString s) \<Longrightarrow>
     checkEndpoint env c e = markUnhealthy c (now env) e 0 [] \<or>
     checkEndpoint env c e = markUnhealthy c (now env) e (elapsed env) []"
  by (auto simp: checkEndpoint_def Let_def split: sum.split option.split json.split)

text \<open>
  C7, as amended. In the multi-chain checker a reply counts as a success exactly when
  its status is 200, its body decodes to an object whose \<^verbatim>\<open>error\<close> member is absent or
  null, and its \<^verbatim>\<open>result\<close> is a string that starts with \<^verbatim>\<open>0x\<close> and whose remainder
  \<^verbatim>\<open>strconv.ParseInt\<close> reads in base 16 into a signed 64-bit integer (a sign is
  accepted, so the integer can be negative); every other reply is a failure. On success
  the block number stored is the decimal numeral of the parsed integer: it reads back in
  base 10 as that integer. In the single-chain checker a reply with status 200, no error
  and any string as result is a success and the string is stored as it is; every other
  outcome goes through \<^verbatim>\<open>markUnhealthy\<close>.
\<close>

theorem probe_acceptance:
  "(Healthy (snd (processHealthCheckResponse env e resp)) \<longleftrightarrow>
      StatusCode resp = 200 \<and>
      (\<exists>m h n. decodeMap env (Body resp) = Some m \<and> \<not> hasError m \<and>
         m ''result'' = Some (JString (''0x'' @ h)) \<and> ParseInt h 16 64 = Some n)) \<and>
   (StatusCode resp = 200 \<and> decodeMap env (Body resp) = Some m \<and> \<not> hasError m \<and>
    m ''result'' = Some (JString (''0x'' @ h)) \<and> ParseInt h 16 64 = Some n \<longrightarrow>
      BlockNumber (snd (processHealthCheckResponse env e resp)) = Sprintf_d n \<and>
      - (2 ^ 63) \<le> n \<and> n < 2 ^ 63 \<and> ParseInt (Sprintf_d n) 10 64 = Some n) \<and>
   (\<not> marshalErr env \<and> \<not> newRequestErr env \<and> clientDo env 0 = Inr resp \<and>
    StatusCode resp = 200 \<and> decodeRPC env (Body resp) = Some r \<and> Error r = None \<and>
    Result r = JString s \<longrightarrow>
      checkEndpoint env c e = markHealthy (now env) e (elapsed env) s \<and>
      BlockNumber (checkEndpoint env c e) = s) \<and>
   (\<not> (\<exists>resp r s. \<not> marshalErr env \<and> \<not> newRequestErr env \<and> clientDo env 0 = Inr resp \<and>
          StatusCode resp = 200 \<and> decodeRPC env (Body resp) = Some r \<and> Error r = None \<and>
          Result r = JString s) \<longrightarrow>
      checkEndpoint env c e = markUnhealthy c (now env) e 0 [] \<or>
      checkEndpoint env c e = markUnhealthy c (now env) e (elapsed env) [])"
proof (intro conjI impI)
  show "Healthy (snd (processHealthCheckResponse env e resp)) \<longleftrightarrow>
      StatusCode resp = 200 \<and>
      (\<exists>m h n. decodeMap env (Body resp) = Some m \<and> \<not> hasError m \<and>
         m ''result'' = Some (JString (''0x'' @ h)) \<and> ParseInt h 16 64 = Some n)"
    unfolding processHealthCheckResponse_Healthy blockNumberOf_Some by blast
next
  assume a: "StatusCode resp = 200 \<and> decodeMap env (Body resp) = Some m \<and> \<not> hasError m \<and>
    m ''result'' = Some (JString (''0x'' @ h)) \<and> ParseInt h 16 64 = Some n"
  then have "blockNumberOf m = Some n" by (auto simp: blockNumberOf_Some)
  with a show "BlockNumber (snd (processHealthCheckResponse env e resp)) = Sprintf_d n"
    by (simp add: processHealthCheckResponse_accepts)
  from a show "- (2 ^ 63) \<le> n" "n < 2 ^ 63" using ParseInt_range by blast+
  then show "ParseInt (Sprintf_d n) 10 64 = Some n" by (rule ParseInt_Sprintf_d)
next
  assume a: "\<not> marshalErr env \<and> \<not> newRequestErr env \<and> clientDo env 0 = Inr resp \<and>
    StatusCode resp = 200 \<and> decodeRPC env (Body resp) = Some r \<and> Error r = None \<and>
    Result r = JString s"
  then show "checkEndpoint env c e = markHealthy (now env) e (elapsed env) s"
    by (simp add: checkEndpoint_accepts)
  then show "BlockNumber (checkEndpoint env c e) = s" by (simp add: markHealthy_def)
next
  assume "\<not> (\<exists>resp r s. \<not> marshalErr env \<and> \<not> newRequestErr env \<and> clientDo env 0 = Inr resp \<and>
          StatusCode resp = 200 \<and> decodeRPC env (Body resp) = Some r \<and> Error r = None \<and>
          Result r = JString s)"
  then show "checkEndpoint env c e = markUnhealthy c (now env) e 0 [] \<or>
      checkEndpoint env c e = markUnhealthy c (now env) e (elapsed env) []"
    by (rule checkEndpoint_rejects)
qed

lemma ParseInt_10: "ParseInt ''10'' 16 64 = Some 16"
  by (simp add: ParseInt_def digitVal_def)

lemma Sprintf_d_16: "Sprintf_d 16 = ''16''"
  by (simp add: Sprintf_d_def digits10.simps char_of_def bit_iff_odd)

theorem probe_acceptance_witness:
  "StatusCode (reply 200 ''0x10'') = 200 \<and>
   decodeMap (env_always (Inr (reply 200 ''0x10''))) (Body (reply 200 ''0x10'')) =
     Some (the (decode_result ''0x10'')) \<and>
   \<not> hasError (the (decode_result ''0x10'')) \<and>
   the (decode_result ''0x10'') ''result'' = Some (JString (''0x'' @ ''10'')) \<and>
   ParseInt ''10'' 16 64 = Some 16 \<and>
   Healthy (snd (processHealthCheckResponse (env_always (Inr (reply 200 ''0x10'')))
                  example_endpoint (reply 200 ''0x10''))) \<and>
   BlockNumber (snd (processHealthCheckResponse (env_always (Inr (reply 200 ''0x10'')))
                  example_endpoint (reply 200 ''0x10''))) = ''16'' \<and>
   clientDo (env_always (Inr (reply 200 ''0x10''))) 0 = Inr (reply 200 ''0x10'') \<and>
   decodeRPC (env_always (Inr (reply 200 ''0x10''))) (Body (reply 200 ''0x10'')) =
     Some (the (decode_rpc ''0x10'')) \<and>
   Error (the (decode_rpc ''0x10'')) = None \<and>
   Result (the (decode_rpc ''0x10'')) = JString ''0x10'' \<and>
   BlockNumber (checkEndpoint (env_always (Inr (reply 200 ''0x10''))) example_config
                  example_endpoint) = ''0x10'' \<and>
   (\<nexists>resp. clientDo (env_always (Inl ''timeout'')) 0 = Inr resp) \<and>
   checkEndpoint (env_always (Inl ''timeout'')) example_config example_endpoint =
     markUnhealthy example_config 1000 example_endpoint 0 []"
proof -
  let ?R = "reply 200 ''0x10''"
  let ?E = "env_always (Inr ?R)"
  let ?T = "env_always (Inl ''timeout'')"
  let ?M = "the (decode_result ''0x10'')"
  let ?P = "the (decode_rpc ''0x10'')"
  have h1: "StatusCode ?R = 200 \<and> decodeMap ?E (Body ?R) = Some ?M \<and> \<not> hasError ?M \<and>
      ?M ''result'' = Some (JString (''0x'' @ ''10'')) \<and> ParseInt ''10'' 16 64 = Some 16"
    by (simp add: reply_def env_always_def decode_result_def hasError_def ParseInt_10)
  have h2: "\<not> marshalErr ?E \<and> \<not> newRequestErr ?E \<and> clientDo ?E 0 = Inr ?R \<and>
      StatusCode ?R = 200 \<and> decodeRPC ?E (Body ?R) = Some ?P \<and> Error ?P = None \<and>
      Result ?P = JString ''0x10''"
    by (simp add: reply_def env_always_def decode_rpc_def)
  have h3: "\<nexists>resp. clientDo ?T 0 = Inr resp"
    by (simp add: env_always_def)
  then have h3': "\<not> (\<exists>resp r s. \<not> marshalErr ?T \<and> \<not> newRequestErr ?T \<and>
      clientDo ?T 0 = Inr resp \<and> StatusCode resp = 200 \<and>
      decodeRPC ?T (Body resp) = Some r \<and> Error r = None \<and> Result r = JString s)"
    by blast
  note A = probe_acceptance [where env = ?E and e = example_endpoint and resp = ?R
      and m = ?M and h = "''10''" and n = 16 and r = ?P and s = "''0x10''"
      and c = example_config]
  note B = probe_acceptance [where env = ?T and e = example_endpoint and resp = ?R
      and m = ?M and h = "''10''" and n = 16 and r = ?P and s = "''0x10''"
      and c = example_config]
  from A h1 have c1: "Healthy (snd (processHealthCheckResponse ?E example_endpoint ?R))"
    by blast
  from A h1 have c2: "BlockNumber (snd (processHealthCheckResponse ?E example_endpoint ?R)) =
      Sprintf_d 16"
    by blast
  from A h2 have c3: "BlockNumber (checkEndpoint ?E example_config example_endpoint) = ''0x10''"
    by blast
  from B h3' have "checkEndpoint ?T example_config example_endpoint =
      markUnhealthy example_config (now ?T) example_endpoint 0 [] \<or>
    checkEndpoint ?T example_config example_endpoint =
      markUnhealthy example_config (now ?T) example_endpoint (elapsed ?T) []"
    by blast
  moreover have "checkEndpoint ?T example_config example_endpoint \<noteq>
      markUnhealthy example_config (now ?T) example_endpoint (elapsed ?T) []"
    by (simp add: checkEndpoint_def env_always_def markUnhealthy_def IncrementFailCount_def
        example_config_def example_endpoint_def SetResponseTime_def SetBlockNumber_def
        wrap_int_def)
  moreover have "now ?T = 1000" by (simp add: env_always_def)
  ultimately have c4: "checkEndpoint ?T example_config example_endpoint =
      markUnhealthy example_config 1000 example_endpoint 0 []"
    by simp
  from h1 h2 h3 c1 c2 c3 c4 show ?thesis
    by (simp only: Sprintf_d_16) blast
qed

text \<open>
  C7 as stated fails. The multi-chain checker accepts the result \<^verbatim>\<open>0x-10\<close>, which is
  no non-negative integer, and stores \<^verbatim>\<open>-16\<close>; the single-chain checker stores the
  result \<^verbatim>\<open>0x10\<close> as \<^verbatim>\<open>0x10\<close>, not as \<^verbatim>\<open>16\<close>, and accepts a result that is no
  hexadecimal numeral at all.
\<close>

theorem probe_acceptance_counterexample:
  "Healthy (snd (processHealthCheckResponse (env_always (Inr (reply 200 ''0x-10'')))
                  example_endpoint (reply 200 ''0x-10''))) \<and>
   BlockNumber (snd (processHealthCheckResponse (env_always (Inr (reply 200 ''0x-10'')))
                  example_endpoint (reply 200 ''0x-10''))) = ''-16'' \<and>
   BlockNumber (checkEndpoint (env_always (Inr (reply 200 ''0x10''))) example_config
                  example_endpoint) = ''0x10'' \<and>
   checkEndpoint (env_always (Inr (reply 200 ''latest''))) example_config
       (example_endpoint\<lparr>Healthy := False, FailCount := 5\<rparr>) =
     markHealthy 1000 (example_endpoint\<lparr>Healthy := False, FailCount := 5\<rparr>) 42 ''latest''"
  by (simp add: processHealthCheckResponse_def checkEndpoint_def env_always_def reply_def
      decode_result_def decode_rpc_def hasError_def blockNumberOf_def HasPrefix_def
      ParseInt_def digitVal_def Sprintf_d_def digits10.simps char_of_def bit_iff_odd
      markHealthy_def)

section \<open>Forwarding with failover\<close>

lemma forwardRequest_endpoints [simp]:
  "endpoints (snd (forwardRequest env i wd a body hdrs)) = endpoints wd"
  by (simp add: forwardRequest_def Let_def split: option.split sum.split)

lemma tryEndpoints_endpoints [simp]:
  "endpoints (snd (tryEndpoints env body hdrs i as lastErr wd)) = endpoints wd"
proof (induction as arbitrary: i lastErr wd)
  case Nil
  then show ?case by simp
next
  case (Cons a as)
  obtain res wd1 where f: "forwardRequest env i wd a body hdrs = (res, wd1)"
    by (cases "forwardRequest env i wd a body hdrs")
  then have "endpoints wd1 = endpoints wd"
    by (metis forwardRequest_endpoints snd_conv)
  with f Cons.IH [of "i + 1" _ wd1] show ?case
    by (cases res) simp_all
qed

text \<open>
  C10. Whatever the request, the registry and the upstream, and however many attempts
  fail, \<^verbatim>\<open>handleRPCForChain\<close> leaves the heap of endpoints as it found it: no healthy
  flag, failure counter, response time, block number or last-check time of any endpoint
  changes.
\<close>

theorem forward_reads_only:
  "endpoints (snd (handleRPCForChain env mc w r chainName wd)) = endpoints wd"
proof -
  have "endpoints (snd (case tryEndpoints env body hdrs 0 as None wd of
            (Inr resp, wd1) \<Rightarrow> (Responded (copyResponse w resp), wd1)
          | (Inl lastErr, wd1) \<Rightarrow>
              (case lastErr of
                 None \<Rightarrow> (Panicked, wd1)
               | Some err \<Rightarrow> (Responded (writeErrorResponse w (- 32000)
                                ''All RPC endpoints failed'' (JString err)), wd1)))) = endpoints wd"
    for body hdrs as
    using tryEndpoints_endpoints [of env body hdrs 0 as None wd]
    by (cases "tryEndpoints env body hdrs 0 as None wd")
       (auto split: sum.split option.split)
  then show ?thesis
    by (simp add: handleRPCForChain_def Let_def split: sum.split)
qed

lemma forwardRequest_transport_error:
  "newRequestError env (URL (endpoints wd a)) = None \<Longrightarrow>
   client_Do env i (upstreamRequest (endpoints wd) a body hdrs) = Inl err \<Longrightarrow>
     forwardRequest env i wd a body hdrs =
       (Inl (''request failed: '' @ err),
        wd\<lparr>calls := calls wd @ [upstreamRequest (endpoints wd) a body hdrs]\<rparr>)"
  by (simp add: forwardRequest_def)

lemma forwardRequest_response:
  "newRequestError env (URL (endpoints wd a)) = None \<Longrightarrow>
   client_Do env i (upstreamRequest (endpoints wd) a body hdrs) = Inr resp \<Longrightarrow>
     forwardRequest env i wd a body hdrs =
       (Inr resp, wd\<lparr>calls := calls wd @ [upstreamRequest (endpoints wd) a body hdrs]\<rparr>)"
  by (simp add: forwardRequest_def)

lemma tryEndpoints_failover:
  assumes "k < length as"
    and "\<And>j. j < k \<Longrightarrow> transportFails env (endpoints wd) body hdrs (i + j) (as ! j) (errs j)"
    and "newRequestError env (URL (endpoints wd (as ! k))) = None"
    and "client_Do env (i + k) (upstreamRequest (endpoints wd) (as ! k) body hdrs) = Inr resp"
  shows "tryEndpoints env body hdrs i as lastErr wd =
           (Inr resp, wd\<lparr>calls := calls wd @
              map (\<lambda>a. upstreamRequest (endpoints wd) a body hdrs) (take (Suc k) as)\<rparr>)"
  using assms
proof (induction as arbitrary: i k lastErr wd errs)
  case Nil
  then show ?case by simp
next
  case (Cons a as)
  show ?case
  proof (cases k)
    case 0
    with Cons.prems(3,4) show ?thesis
      by (simp add: forwardRequest_response)
  next
    case (Suc k')
    let ?req = "upstreamRequest (endpoints wd) a body hdrs"
    let ?wd1 = "wd\<lparr>calls := calls wd @ [?req]\<rparr>"
    from Cons.prems(2) [of 0] Suc
    have f: "forwardRequest env i wd a body hdrs = (Inl (''request failed: '' @ errs 0), ?wd1)"
      by (simp add: transportFails_def forwardRequest_transport_error)
    have "tryEndpoints env body hdrs (i + 1) as (Some (''request failed: '' @ errs 0)) ?wd1 =
        (Inr resp, ?wd1\<lparr>calls := calls ?wd1 @
              map (\<lambda>a. upstreamRequest (endpoints ?wd1) a body hdrs) (take (Suc k') as)\<rparr>)"
    proof (rule Cons.IH [where errs = "\<lambda>j. errs (Suc j)"])
      show "k' < length as" using Cons.prems(1) Suc by simp
      show "transportFails env (endpoints ?wd1) body hdrs (i + 1 + j) (as ! j) (errs (Suc j))"
        if "j < k'" for j
        using Cons.prems(2) [of "Suc j"] that Suc by simp
      show "newRequestError env (URL (endpoints ?wd1 (as ! k'))) = None"
        using Cons.prems(3) Suc by simp
      show "client_Do env (i + 1 + k') (upstreamRequest (endpoints ?wd1) (as ! k') body hdrs) =
          Inr resp"
        using Cons.prems(4) Suc by simp
    qed
    with f Suc show ?thesis by simp
  qed
qed

lemma tryEndpoints_exhausted:
  assumes "\<And>j. j < length as \<Longrightarrow>
      transportFails env (endpoints wd) body hdrs (i + j) (as ! j) (errs j)"
  shows "tryEndpoints env body hdrs i as lastErr wd =
           (Inl (if as = [] then lastErr
                 else Some (''request failed: '' @ errs (length as - 1))),
            wd\<lparr>calls := calls wd @ map (\<lambda>a. upstreamRequest (endpoints wd) a body hdrs) as\<rparr>)"
  using assms
proof (induction as arbitrary: i lastErr wd errs)
  case Nil
  then show ?case by simp
next
  case (Cons a as)
  let ?req = "upstreamRequest (endpoints wd) a body hdrs"
  let ?wd1 = "wd\<lparr>calls := calls wd @ [?req]\<rparr>"
  from Cons.prems [of 0]
  have f: "forwardRequest env i wd a body hdrs = (Inl (''request failed: '' @ errs 0), ?wd1)"
    by (simp add: transportFails_def forwardRequest_transport_error)
  have "tryEndpoints env body hdrs (i + 1) as (Some (''request failed: '' @ errs 0)) ?wd1 =
      (Inl (if as = [] then Some (''request failed: '' @ errs 0)
            else Some (''request failed: '' @ errs (Suc (length as - 1)))),
       ?wd1\<lparr>calls := calls ?wd1 @ map (\<lambda>a. upstreamRequest (endpoints ?wd1) a body hdrs) as\<rparr>)"
  proof (rule Cons.IH [where errs = "\<lambda>j. errs (Suc j)"])
    show "transportFails env (endpoints ?wd1) body hdrs (i + 1 + j) (as ! j) (errs (Suc j))"
      if "j < length as" for j
      using Cons.prems [of "Suc j"] that by simp
  qed
  with f show ?case by (cases as) simp_all
qed


lemma length_outerLoop [simp]: "length (outerLoop \<sigma> i xs) = length xs"
proof (induction \<sigma> i xs rule: outerLoop.induct)
  case (1 \<sigma> i xs)
  then show ?case by (subst outerLoop.simps) auto
qed

lemma length_getSortedEndpointsByWeight [simp]:
  "length (getSortedEndpointsByWeight \<sigma> xs) = length xs"
  by (simp add: getSortedEndpointsByWeight_def)

lemma getSortedEndpointsByWeight_Nil [simp]:
  "getSortedEndpointsByWeight \<sigma> xs = [] \<longleftrightarrow> xs = []"
  using length_getSortedEndpointsByWeight [of \<sigma> xs] by (simp only: length_0_conv [symmetric])

lemma WriteHeader_fresh [simp]:
  "w_status w = None \<Longrightarrow> WriteHeader code w = w\<lparr>w_status := Some code\<rparr>"
  by (simp add: WriteHeader_def)

lemma WriteHeader_written [simp]:
  "w_status w = Some c \<Longrightarrow> WriteHeader code w = w"
  by (simp add: WriteHeader_def)

text \<open>
  C3. When the healthy set of the chain is empty, \<^verbatim>\<open>handleRPCForChain\<close> issues no
  upstream call; and for a request that reaches the forwarding step (method POST or GET,
  body read, nothing written to the response yet) the response is the JSON-RPC error
  with code \<open>-32000\<close> and the message \<^verbatim>\<open>No healthy RPC endpoints available for chain: \<close>
  followed by the chain name, sent with status 200.
\<close>

theorem no_healthy_endpoints:
  assumes "GetHealthyEndpoints mc (endpoints wd) chainName = []"
  shows "calls (snd (handleRPCForChain env mc w r chainName wd)) = calls wd \<and>
    ((Method r = ''POST'' \<or> Method r = ''GET'') \<and> readBody r = Inr body \<and> w_status w = None \<longrightarrow>
       (\<exists>w'. fst (handleRPCForChain env mc w r chainName wd) = Responded w' \<and>
          w_status w' = Some 200 \<and>
          w_body w' = w_body w @
            [JSON \<lparr>Jsonrpc = ''2.0'', Result = JNull,
                    Error = Some \<lparr>Code = - 32000,
                      Message = ''No healthy RPC endpoints available for chain: '' @ chainName,
                      Data = JNull\<rparr>,
                    RespID = JNull\<rparr>]))"
  using assms
  by (auto simp: handleRPCForChain_def writeErrorResponse_def Write_def split: sum.split)

text \<open>
  C5. For a request that reaches the forwarding step: if the first \<open>k\<close> endpoints of the
  weight order fail at transport and the next one returns a response, the caller gets
  that response (its status code, its body, its headers added to those already set) and
  the upstream calls issued are those to the first \<open>k + 1\<close> endpoints of the order, in
  order, and no other.
\<close>

theorem failover_first_response:
  assumes "Method r = ''POST'' \<or> Method r = ''GET''" and "readBody r = Inr body"
    and "w_status w = None"
    and "getSortedEndpointsByWeight (endpoints wd)
           (GetHealthyEndpoints mc (endpoints wd) chainName) = ordered"
    and "k < length ordered"
    and "\<forall>j<k. transportFails env (endpoints wd) body (Header_req r) j (ordered ! j) (errs j)"
    and "newRequestError env (URL (endpoints wd (ordered ! k))) = None"
    and "client_Do env k (upstreamRequest (endpoints wd) (ordered ! k) body (Header_req r)) = Inr resp"
  shows "\<exists>w'. fst (handleRPCForChain env mc w r chainName wd) = Responded w' \<and>
     w_status w' = Some (StatusCode resp) \<and> w_body w' = w_body w @ [Bytes (Body resp)] \<and>
     w_header w' = w_header w @ Header resp \<and>
     calls (snd (handleRPCForChain env mc w r chainName wd)) =
       calls wd @ map (\<lambda>a. upstreamRequest (endpoints wd) a body (Header_req r))
                    (take (Suc k) ordered)"
proof -
  from assms(4,5) have ne: "GetHealthyEndpoints mc (endpoints wd) chainName \<noteq> []"
    by auto
  have "tryEndpoints env body (Header_req r) 0 ordered None wd =
      (Inr resp, wd\<lparr>calls := calls wd @
         map (\<lambda>a. upstreamRequest (endpoints wd) a body (Header_req r)) (take (Suc k) ordered)\<rparr>)"
    by (rule tryEndpoints_failover [where errs = errs]) (use assms in auto)
  with assms(1,2,3,4) ne show ?thesis
    by (auto simp: handleRPCForChain_def copyResponse_def Write_def)
qed

text \<open>
  C6. For a request that reaches the forwarding step: if every endpoint of the weight
  order fails at transport, the caller gets one JSON-RPC error envelope, sent with
  status 200, with a null id, the code \<open>-32000\<close>, the message
  \<^verbatim>\<open>All RPC endpoints failed\<close>, and as data the error of the last attempt (the transport
  error of the last endpoint, wrapped as \<^verbatim>\<open>request failed: ...\<close>); every endpoint was
  called once, in order.
\<close>

theorem all_endpoints_fail:
  assumes "Method r = ''POST'' \<or> Method r = ''GET''" and "readBody r = Inr body"
    and "w_status w = None"
    and "getSortedEndpointsByWeight (endpoints wd)
           (GetHealthyEndpoints mc (endpoints wd) chainName) = ordered"
    and "ordered \<noteq> []"
    and "\<forall>j<length ordered.
           transportFails env (endpoints wd) body (Header_req r) j (ordered ! j) (errs j)"
  shows "\<exists>w'. fst (handleRPCForChain env mc w r chainName wd) = Responded w' \<and>
     w_status w' = Some 200 \<and>
     w_body w' = w_body w @
       [JSON \<lparr>Jsonrpc = ''2.0'', Result = JNull,
               Error = Some \<lparr>Code = - 32000, Message = ''All RPC endpoints failed'',
                 Data = JString (''request failed: '' @ errs (length ordered - 1))\<rparr>,
               RespID = JNull\<rparr>] \<and>
     calls (snd (handleRPCForChain env mc w r chainName wd)) =
       calls wd @ map (\<lambda>a. upstreamRequest (endpoints wd) a body (Header_req r)) ordered"
proof -
  from assms(4,5) have ne: "GetHealthyEndpoints mc (endpoints wd) chainName \<noteq> []"
    by auto
  have "tryEndpoints env body (Header_req r) 0 ordered None wd =
      (Inl (if ordered = [] then None
            else Some (''request failed: '' @ errs (length ordered - 1))),
       wd\<lparr>calls := calls wd @
         map (\<lambda>a. upstreamRequest (endpoints wd) a body (Header_req r)) ordered\<rparr>)"
    by (rule tryEndpoints_exhausted [where errs = errs]) (use assms in auto)
  with assms(1,2,3,4,5) ne show ?thesis
    by (auto simp: handleRPCForChain_def writeErrorResponse_def Write_def)
qed

lemma example_urls [simp]:
  "URL example_endpoint = ''https://eth.llamarpc.com''"
  "URL endpoint_B = ''https://ethereum.publicnode.com''"
  "URL endpoint_C = ''https://cloudflare-eth.com''"
  by (simp_all add: example_endpoint_def endpoint_B_def endpoint_C_def)

lemma example_healthy:
  "GetHealthyEndpoints example_checker (endpoints example_world) ''ethereum'' = [0, 1, 2]"
  by (simp add: GetHealthyEndpoints_def IsHealthy_def example_checker_def example_chain_def
      example_world_def)

lemma example_request_ok:
  "(Method example_request = ''POST'' \<or> Method example_request = ''GET'') \<and>
   readBody example_request = Inr ''eth_blockNumber'' \<and> w_status example_writer = None"
  by (simp add: example_request_def readBody_def example_writer_def)

theorem no_healthy_endpoints_witness:
  "GetHealthyEndpoints example_checker
     (endpoints (example_world\<lparr>endpoints := (\<lambda>a. example_heap a\<lparr>Healthy := False\<rparr>)\<rparr>))
     ''ethereum'' = [] \<and>
   (Method example_request = ''POST'' \<or> Method example_request = ''GET'') \<and>
   readBody example_request = Inr ''eth_blockNumber'' \<and> w_status example_writer = None \<and>
   calls (snd (handleRPCForChain upstream_first_down example_checker example_writer
     example_request ''ethereum''
     (example_world\<lparr>endpoints := (\<lambda>a. example_heap a\<lparr>Healthy := False\<rparr>)\<rparr>))) = [] \<and>
   (\<exists>w'. fst (handleRPCForChain upstream_first_down example_checker example_writer
       example_request ''ethereum''
       (example_world\<lparr>endpoints := (\<lambda>a. example_heap a\<lparr>Healthy := False\<rparr>)\<rparr>)) = Responded w' \<and>
     w_status w' = Some 200 \<and>
     w_body w' =
       [JSON \<lparr>Jsonrpc = ''2.0'', Result = JNull,
               Error = Some \<lparr>Code = - 32000,
                 Message = ''No healthy RPC endpoints available for chain: ethereum'',
                 Data = JNull\<rparr>,
               RespID = JNull\<rparr>])"
proof -
  let ?wd = "example_world\<lparr>endpoints := (\<lambda>a. example_heap a\<lparr>Healthy := False\<rparr>)\<rparr>"
  have h: "GetHealthyEndpoints example_checker (endpoints ?wd) ''ethereum'' = []"
    by (simp add: GetHealthyEndpoints_def IsHealthy_def example_checker_def example_chain_def)
  have c: "calls ?wd = []" "w_body example_writer = []"
    by (simp_all add: example_world_def example_writer_def)
  from no_healthy_endpoints [OF h, of upstream_first_down example_writer example_request
      "''eth_blockNumber''"] example_request_ok h c
  show ?thesis by simp
qed

theorem failover_first_response_witness:
  "getSortedEndpointsByWeight (endpoints example_world)
     (GetHealthyEndpoints example_checker (endpoints example_world) ''ethereum'') = [0, 1, 2] \<and>
   transportFails upstream_first_down (endpoints example_world) ''eth_blockNumber''
     (Header_req example_request) 0 0 ''timeout'' \<and>
   client_Do upstream_first_down 1
     (upstreamRequest (endpoints example_world) 1 ''eth_blockNumber'' (Header_req example_request)) =
     Inr (reply 200 ''https://ethereum.publicnode.com'') \<and>
   (\<exists>w'. fst (handleRPCForChain upstream_first_down example_checker example_writer
       example_request ''ethereum'' example_world) = Responded w' \<and>
     w_status w' = Some 200 \<and> w_body w' = [Bytes ''https://ethereum.publicnode.com'']) \<and>
   map up_url (calls (snd (handleRPCForChain upstream_first_down example_checker example_writer
       example_request ''ethereum'' example_world))) =
     [''https://eth.llamarpc.com'', ''https://ethereum.publicnode.com'']"
proof -
  let ?\<sigma> = "endpoints example_world"
  let ?h = "Header_req example_request"
  have s: "getSortedEndpointsByWeight ?\<sigma>
      (GetHealthyEndpoints example_checker ?\<sigma> ''ethereum'') = [0, 1, 2]"
    unfolding example_healthy
    by (simp add: example_world_def getSortedEndpointsByWeight_def outerLoop.simps
        innerLoop.simps)
  have f0: "transportFails upstream_first_down ?\<sigma> ''eth_blockNumber'' ?h 0 0 ''timeout''"
    by (simp add: transportFails_def upstream_first_down_def upstreamRequest_def
        example_world_def)
  then have f: "\<forall>j<1. transportFails upstream_first_down ?\<sigma> ''eth_blockNumber'' ?h j
      ([0, 1, 2] ! j) ((\<lambda>j. ''timeout'') j)"
    by simp
  have n: "newRequestError upstream_first_down (URL (?\<sigma> ([0, 1, 2] ! 1))) = None"
    by (simp add: upstream_first_down_def)
  have d: "client_Do upstream_first_down 1
      (upstreamRequest ?\<sigma> ([0, 1, 2] ! 1) ''eth_blockNumber'' ?h) =
      Inr (reply 200 ''https://ethereum.publicnode.com'')"
    by (simp add: upstream_first_down_def upstreamRequest_def example_world_def)
  have k: "(1::nat) < length [0::nat, 1, 2]" by simp
  from example_request_ok have m: "Method example_request = ''POST'' \<or>
      Method example_request = ''GET''"
    and b: "readBody example_request = Inr ''eth_blockNumber''"
    and w: "w_status example_writer = None"
    by blast+
  have c: "calls example_world = []" "w_body example_writer = []"
    by (simp_all add: example_world_def example_writer_def)
  let ?res = "handleRPCForChain upstream_first_down example_checker example_writer
       example_request ''ethereum'' example_world"
  from failover_first_response [OF m b w s k f n d] obtain w' where
    r: "fst ?res = Responded w'"
      "w_status w' = Some (StatusCode (reply 200 ''https://ethereum.publicnode.com''))"
      "w_body w' = w_body example_writer @
         [Bytes (Body (reply 200 ''https://ethereum.publicnode.com''))]"
      "calls (snd ?res) = calls example_world @
         map (\<lambda>a. upstreamRequest ?\<sigma> a ''eth_blockNumber'' ?h) (take (Suc 1) [0, 1, 2])"
    by blast
  from r(2) have r2: "w_status w' = Some 200" by (simp add: reply_def)
  from r(3) have r3: "w_body w' = [Bytes ''https://ethereum.publicnode.com'']"
    by (simp add: reply_def c)
  from r(4) have r4: "map up_url (calls (snd ?res)) =
     [''https://eth.llamarpc.com'', ''https://ethereum.publicnode.com'']"
    by (simp add: c upstreamRequest_def example_world_def)
  from d have d': "client_Do upstream_first_down 1
     (upstreamRequest ?\<sigma> 1 ''eth_blockNumber'' ?h) =
     Inr (reply 200 ''https://ethereum.publicnode.com'')"
    by simp
  from s f0 d' r(1) r2 r3 r4 show ?thesis by blast
qed

theorem all_endpoints_fail_witness:
  "getSortedEndpointsByWeight (endpoints example_world)
     (GetHealthyEndpoints example_checker (endpoints example_world) ''ethereum'') = [0, 1, 2] \<and>
   transportFails upstream_all_down (endpoints example_world) ''eth_blockNumber''
     (Header_req example_request) 0 0 ''timeout https://eth.llamarpc.com'' \<and>
   transportFails upstream_all_down (endpoints example_world) ''eth_blockNumber''
     (Header_req example_request) 1 1 ''timeout https://ethereum.publicnode.com'' \<and>
   transportFails upstream_all_down (endpoints example_world) ''eth_blockNumber''
     (Header_req example_request) 2 2 ''timeout https://cloudflare-eth.com'' \<and>
   (\<exists>w'. fst (handleRPCForChain upstream_all_down example_checker example_writer
       example_request ''ethereum'' example_world) = Responded w' \<and>
     w_status w' = Some 200 \<and>
     w_body w' =
       [JSON \<lparr>Jsonrpc = ''2.0'', Result = JNull,
               Error = Some \<lparr>Code = - 32000, Message = ''All RPC endpoints failed'',
                 Data = JString ''request failed: timeout https://cloudflare-eth.com''\<rparr>,
               RespID = JNull\<rparr>]) \<and>
   map up_url (calls (snd (handleRPCForChain upstream_all_down example_checker example_writer
       example_request ''ethereum'' example_world))) =
     [''https://eth.llamarpc.com'', ''https://ethereum.publicnode.com'',
      ''https://cloudflare-eth.com'']"
proof -
  let ?\<sigma> = "endpoints example_world"
  let ?h = "Header_req example_request"
  let ?errs = "\<lambda>j. ''timeout '' @ URL (example_heap ([0, 1, 2] ! j))"
  have s: "getSortedEndpointsByWeight ?\<sigma>
      (GetHealthyEndpoints example_checker ?\<sigma> ''ethereum'') = [0, 1, 2]"
    unfolding example_healthy
    by (simp add: example_world_def getSortedEndpointsByWeight_def outerLoop.simps
        innerLoop.simps)
  have f: "\<forall>j<length [0::nat, 1, 2]. transportFails upstream_all_down ?\<sigma> ''eth_blockNumber'' ?h j
      ([0, 1, 2] ! j) (?errs j)"
    by (simp add: transportFails_def upstream_all_down_def upstreamRequest_def
        example_world_def)
  have ne: "[0::nat, 1, 2] \<noteq> []" by simp
  from example_request_ok have m: "Method example_request = ''POST'' \<or>
      Method example_request = ''GET''"
    and b: "readBody example_request = Inr ''eth_blockNumber''"
    and w: "w_status example_writer = None"
    by blast+
  have c: "calls example_world = []" "w_body example_writer = []"
    by (simp_all add: example_world_def example_writer_def)
  have l: "?errs (length [0::nat, 1, 2] - 1) = ''timeout https://cloudflare-eth.com''"
    by simp
  have f3: "transportFails upstream_all_down ?\<sigma> ''eth_blockNumber'' ?h 0 0
      ''timeout https://eth.llamarpc.com''"
    "transportFails upstream_all_down ?\<sigma> ''eth_blockNumber'' ?h 1 1
      ''timeout https://ethereum.publicnode.com''"
    "transportFails upstream_all_down ?\<sigma> ''eth_blockNumber'' ?h 2 2
      ''timeout https://cloudflare-eth.com''"
    using f [rule_format, of 0] f [rule_format, of 1] f [rule_format, of 2] by simp_all
  let ?res = "handleRPCForChain upstream_all_down example_checker example_writer
       example_request ''ethereum'' example_world"
  from all_endpoints_fail [OF m b w s ne f] obtain w' where
    r: "fst ?res = Responded w'" "w_status w' = Some 200"
      "w_body w' = w_body example_writer @
        [JSON \<lparr>Jsonrpc = ''2.0'', Result = JNull,
               Error = Some \<lparr>Code = - 32000, Message = ''All RPC endpoints failed'',
                 Data = JString (''request failed: '' @ ?errs (length [0::nat, 1, 2] - 1))\<rparr>,
               RespID = JNull\<rparr>]"
      "calls (snd ?res) = calls example_world @
         map (\<lambda>a. upstreamRequest ?\<sigma> a ''eth_blockNumber'' ?h) [0, 1, 2]"
    by blast
  from r(3) have r3: "w_body w' =
        [JSON \<lparr>Jsonrpc = ''2.0'', Result = JNull,
               Error = Some \<lparr>Code = - 32000, Message = ''All RPC endpoints failed'',
                 Data = JString ''request failed: timeout https://cloudflare-eth.com''\<rparr>,
               RespID = JNull\<rparr>]"
    unfolding l c by simp
  from r(4) have r4: "map up_url (calls (snd ?res)) =
     [''https://eth.llamarpc.com'', ''https://ethereum.publicnode.com'',
      ''https://cloudflare-eth.com'']"
    by (simp add: c upstreamRequest_def example_world_def)
  from s f3 r(1,2) r3 r4 show ?thesis by blast
qed

section \<open>The healthy endpoints of a chain\<close>

lemma SetHealthy_Enabled [simp]: "Enabled (SetHealthy t h e) = Enabled e"
  by (simp add: SetHealthy_def)

lemma SetResponseTime_Enabled [simp]: "Enabled (SetResponseTime rt e) = Enabled e"
  by (simp add: SetResponseTime_def)

lemma SetBlockNumber_Enabled [simp]: "Enabled (SetBlockNumber bn e) = Enabled e"
  by (simp add: SetBlockNumber_def)

lemma processHealthCheckResponse_Enabled:
  "Enabled (snd (processHealthCheckResponse env e resp)) = Enabled e"
  by (simp add: processHealthCheckResponse_def Let_def split: option.split)

lemma attemptLoop_Enabled: "Enabled (attemptLoop env r i e) = Enabled e"
proof (induction env r i e rule: attemptLoop.induct)
  case (1 env retries attempt endpoint)
  show ?case
  proof (cases "clientDo env attempt")
    case (Inl err)
    with 1(1) [of err] show ?thesis
      by (subst attemptLoop.simps) auto
  next
    case (Inr resp)
    with processHealthCheckResponse_verdict [of env endpoint resp]
      processHealthCheckResponse_Enabled [of env endpoint resp] show ?thesis
      by (subst attemptLoop.simps) (auto simp: case_prod_beta)
  qed
qed

lemma checkEndpointHealth_Enabled: "Enabled (checkEndpointHealth env hc e) = Enabled e"
  by (simp add: checkEndpointHealth_def attemptLoop_Enabled)

lemma checkEndpoints_invariant:
  "\<forall>a. Healthy (\<sigma> a) \<longrightarrow> Enabled (\<sigma> a) \<Longrightarrow>
     \<forall>a. Healthy (checkEndpoints envs hc i as \<sigma> a) \<longrightarrow> Enabled (checkEndpoints envs hc i as \<sigma> a)"
proof (induction as arbitrary: i \<sigma>)
  case Nil
  then show ?case by simp
next
  case (Cons a as)
  show ?case
    unfolding checkEndpoints.simps
    by (rule Cons.IH) (use Cons.prems in \<open>auto simp: checkEndpointHealth_Enabled\<close>)
qed

lemma GetHealthyEndpoints_unknown:
  "map_of (chains mc) name = None \<Longrightarrow> GetHealthyEndpoints mc \<sigma> name = []"
  by (simp add: GetHealthyEndpoints_def)

lemma GetHealthyEndpoints_known:
  "map_of (chains mc) name = Some cc \<Longrightarrow>
     GetHealthyEndpoints mc \<sigma> name = filter (\<lambda>a. Healthy (\<sigma> a)) (Endpoints cc)"
  by (simp add: GetHealthyEndpoints_def IsHealthy_def)

lemma proberPass_invariant:
  "\<forall>a. Healthy (\<sigma> a) \<longrightarrow> Enabled (\<sigma> a) \<Longrightarrow>
     \<forall>a. Healthy (proberPass k envs mc \<sigma> a) \<longrightarrow> Enabled (proberPass k envs mc \<sigma> a)"
  using checkEndpoints_invariant [of \<sigma> envs "healthConfig mc" 0]
  by (simp add: proberPass_def checkChainHealth_def)

lemma handleRPCForChain_heap:
  "endpoints (snd (handleRPCForChain env mc w r chainName wd)) = endpoints wd"
proof -
  have "endpoints (snd (case tryEndpoints env body hdrs 0 as None wd of
            (Inr resp, wd1) \<Rightarrow> (Responded (copyResponse w resp), wd1)
          | (Inl lastErr, wd1) \<Rightarrow>
              (case lastErr of
                 None \<Rightarrow> (Panicked, wd1)
               | Some err \<Rightarrow> (Responded (writeErrorResponse w (- 32000)
                                ''All RPC endpoints failed'' (JString err)), wd1)))) = endpoints wd"
    for body hdrs as
    using tryEndpoints_endpoints [of env body hdrs 0 as None wd]
    by (cases "tryEndpoints env body hdrs 0 as None wd")
       (auto split: sum.split option.split)
  then show ?thesis
    by (simp add: handleRPCForChain_def Let_def split: sum.split)
qed

text \<open>
  In every state of a run, an endpoint that is marked healthy is enabled: no endpoint is
  healthy at the start, the enabled flag is never written, a probe pass skips the
  disabled endpoints, and the proxy writes no endpoint.
\<close>

lemma reachable_healthy_enabled:
  "reachable s \<Longrightarrow> \<forall>a. Healthy (snd s a) \<longrightarrow> Enabled (snd s a)"
proof (induction rule: reachable.induct)
  case (probed mc \<sigma> k envs)
  then show ?case using proberPass_invariant [of \<sigma> k envs mc] by simp
next
  case (forwarded mc wd env w r chainName)
  then show ?case by (simp add: handleRPCForChain_heap)
qed simp_all

text \<open>
  C9. In every state of a run and for every chain name, \<^verbatim>\<open>GetHealthyEndpoints\<close> returns
  nothing when the name is not in the registry, and otherwise exactly the chain's
  endpoints that are both healthy and enabled, in configuration order: every endpoint
  returned is healthy and enabled, and every healthy and enabled endpoint of the chain
  is returned.
\<close>

theorem healthy_endpoints:
  assumes "reachable (mc, \<sigma>)"
  shows "(map_of (chains mc) name = None \<longrightarrow> GetHealthyEndpoints mc \<sigma> name = []) \<and>
    (map_of (chains mc) name = Some cc \<longrightarrow>
       GetHealthyEndpoints mc \<sigma> name =
         filter (\<lambda>a. Healthy (\<sigma> a) \<and> Enabled (\<sigma> a)) (Endpoints cc) \<and>
       (\<forall>a \<in> set (GetHealthyEndpoints mc \<sigma> name). Healthy (\<sigma> a) \<and> Enabled (\<sigma> a)) \<and>
       (\<forall>a \<in> set (Endpoints cc). Healthy (\<sigma> a) \<and> Enabled (\<sigma> a) \<longrightarrow>
          a \<in> set (GetHealthyEndpoints mc \<sigma> name)))"
proof -
  from reachable_healthy_enabled [OF assms]
  have inv: "\<forall>a. Healthy (\<sigma> a) \<longrightarrow> Enabled (\<sigma> a)" by simp
  then have "filter (\<lambda>a. Healthy (\<sigma> a)) xs = filter (\<lambda>a. Healthy (\<sigma> a) \<and> Enabled (\<sigma> a)) xs"
    for xs
    by (intro filter_cong) auto
  then have "GetHealthyEndpoints mc \<sigma> name =
      filter (\<lambda>a. Healthy (\<sigma> a) \<and> Enabled (\<sigma> a)) (Endpoints cc)"
    if "map_of (chains mc) name = Some cc"
    using that by (simp add: GetHealthyEndpoints_known)
  then show ?thesis
    by (auto simp: GetHealthyEndpoints_unknown)
qed

lemma accepted_pass:
  "checkEndpointHealth (env_always (Inr (reply 200 ''0x10''))) example_config e =
     SetHealthy 1000 True (SetBlockNumber ''16'' (SetResponseTime 42 e))"
proof -
  let ?E = "env_always (Inr (reply 200 ''0x10''))"
  have "checkEndpointHealth ?E example_config e =
      snd (processHealthCheckResponse ?E e (reply 200 ''0x10''))"
    by (rule checkEndpointHealth_reply [where k = 0])
       (simp_all add: env_always_def example_config_def)
  moreover have "processHealthCheckResponse ?E e (reply 200 ''0x10'') =
      (True, SetHealthy (now ?E) True
               (SetBlockNumber (Sprintf_d 16) (SetResponseTime (elapsed ?E) e)))"
    by (rule processHealthCheckResponse_accepts [where m = "the (decode_result ''0x10'')"])
       (use decode_result_0x10 in \<open>simp_all add: reply_def env_always_def decode_result_def\<close>)
  ultimately show ?thesis by (simp add: Sprintf_d_16 env_always_def)
qed

theorem healthy_endpoints_witness:
  "reachable (Start example_checker,
     proberPass 0 (\<lambda>i. env_always (Inr (reply 200 ''0x10''))) (Start example_checker)
       initial_heap) \<and>
   \<not> Enabled (initial_heap 1) \<and>
   map_of (chains (Start example_checker)) ''solana'' = None \<and>
   GetHealthyEndpoints (Start example_checker)
     (proberPass 0 (\<lambda>i. env_always (Inr (reply 200 ''0x10''))) (Start example_checker)
       initial_heap) ''solana'' = [] \<and>
   map_of (chains (Start example_checker)) ''ethereum'' = Some example_chain \<and>
   GetHealthyEndpoints (Start example_checker)
     (proberPass 0 (\<lambda>i. env_always (Inr (reply 200 ''0x10''))) (Start example_checker)
       initial_heap) ''ethereum'' = [0, 2]"
proof -
  let ?mc = "Start example_checker"
  let ?\<sigma> = "proberPass 0 (\<lambda>i. env_always (Inr (reply 200 ''0x10''))) ?mc initial_heap"
  have "reachable (example_checker, initial_heap)"
    by (rule reachable.initial) (simp_all add: example_checker_def initial_heap_def)
  then have "reachable (?mc, initial_heap)" by (rule reachable.started)
  then have r: "reachable (?mc, ?\<sigma>)" by (rule reachable.probed)
  have d: "\<not> Enabled (initial_heap 1)" by (simp add: initial_heap_def)
  have h1: "map_of (chains ?mc) ''solana'' = None"
    and h2: "map_of (chains ?mc) ''ethereum'' = Some example_chain"
    by (simp_all add: Start_def example_checker_def)
  have p: "probers ?mc = [(''ethereum'', example_chain)]"
    "healthConfig ?mc = example_config"
    by (simp_all add: Start_def example_checker_def)
  have s: "Healthy (?\<sigma> 0) \<and> Enabled (?\<sigma> 0)" "\<not> Healthy (?\<sigma> 1)"
    "Healthy (?\<sigma> 2) \<and> Enabled (?\<sigma> 2)"
    by (simp_all add: proberPass_def p checkChainHealth_def example_chain_def initial_heap_def
        accepted_pass)
  note A = healthy_endpoints [OF r, of "''solana''" example_chain]
  note B = healthy_endpoints [OF r, of "''ethereum''" example_chain]
  from A h1 have c1: "GetHealthyEndpoints ?mc ?\<sigma> ''solana'' = []" by blast
  from B h2 have "GetHealthyEndpoints ?mc ?\<sigma> ''ethereum'' =
      filter (\<lambda>a. Healthy (?\<sigma> a) \<and> Enabled (?\<sigma> a)) (Endpoints example_chain)"
    by blast
  with s have c2: "GetHealthyEndpoints ?mc ?\<sigma> ''ethereum'' = [0, 2]"
    by (simp add: example_chain_def)
  from r d h1 h2 c1 c2 show ?thesis by blast
qed

section \<open>Removing a chain\<close>

lemma RemoveChain_probers: "probers (RemoveChain chainName mc) = probers mc"
  by (simp add: RemoveChain_def)

lemma timeout_pass:
  "checkEndpointHealth (env_always (Inl ''timeout'')) example_config e =
     SetResponseTime 42 (SetHealthy 1000 False e)"
  by (simp add: checkEndpointHealth_def env_always_def example_config_def attemptLoop.simps)

text \<open>
  C8. The claim does not hold of \<^verbatim>\<open>RemoveChain\<close>: it deletes the entry of the map and
  nothing else. With the chain \<^verbatim>\<open>ethereum\<close> started and then removed, the goroutine of
  the chain is still running on the \<^verbatim>\<open>ChainConfig\<close> it holds, and its next pass, here
  one whose attempts time out, writes the health state of the chain's first endpoint.
\<close>

theorem removed_chain_still_probed:
  "probers (Start example_checker) = [(''ethereum'', example_chain)] \<and>
   map_of (chains (RemoveChain ''ethereum'' (Start example_checker))) ''ethereum'' = None \<and>
   probers (RemoveChain ''ethereum'' (Start example_checker)) = [(''ethereum'', example_chain)] \<and>
   Healthy (example_heap 0) \<and> FailCount (example_heap 0) = 0 \<and> LastCheck (example_heap 0) = 0 \<and>
   \<not> Healthy (proberPass 0 (\<lambda>i. env_always (Inl ''timeout''))
                 (RemoveChain ''ethereum'' (Start example_checker)) example_heap 0) \<and>
   FailCount (proberPass 0 (\<lambda>i. env_always (Inl ''timeout''))
                 (RemoveChain ''ethereum'' (Start example_checker)) example_heap 0) = 1 \<and>
   LastCheck (proberPass 0 (\<lambda>i. env_always (Inl ''timeout''))
                 (RemoveChain ''ethereum'' (Start example_checker)) example_heap 0) = 1000"
proof -
  have p: "probers (Start example_checker) = [(''ethereum'', example_chain)]"
    by (simp add: Start_def example_checker_def)
  then have q: "probers (RemoveChain ''ethereum'' (Start example_checker)) =
      [(''ethereum'', example_chain)]"
    by (simp add: RemoveChain_probers)
  have gone: "map_of (chains (RemoveChain ''ethereum'' (Start example_checker))) ''ethereum'' = None"
    by (simp add: RemoveChain_def Start_def example_checker_def)
  have hc: "healthConfig (RemoveChain ''ethereum'' (Start example_checker)) = example_config"
    by (simp add: RemoveChain_def Start_def example_checker_def)
  have pass: "proberPass 0 (\<lambda>i. env_always (Inl ''timeout''))
        (RemoveChain ''ethereum'' (Start example_checker)) example_heap 0 =
      SetResponseTime 42 (SetHealthy 1000 False example_endpoint)"
    by (simp add: proberPass_def q checkChainHealth_def hc example_chain_def timeout_pass)
  have before: "Healthy (example_heap 0)" "FailCount (example_heap 0) = 0"
    "LastCheck (example_heap 0) = 0"
    by (simp_all add: example_endpoint_def)
  show ?thesis
    unfolding pass using p q gone before
    by (simp add: SetHealthy_def SetResponseTime_def example_endpoint_def wrap_int_def)
qed

section \<open>The weight order\<close>

lemma swap_adjacent:
  assumes "Suc j < length xs"
  shows "xs = take j xs @ xs ! j # xs ! Suc j # drop (Suc (Suc j)) xs"
    and "xs[j := xs ! Suc j, Suc j := xs ! j] =
           take j xs @ xs ! Suc j # xs ! j # drop (Suc (Suc j)) xs"
proof -
  from assms have j: "j < length xs" by simp
  show 1: "xs = take j xs @ xs ! j # xs ! Suc j # drop (Suc (Suc j)) xs"
    using assms j by (metis Cons_nth_drop_Suc append_take_drop_id)
  have "length (take j xs) = j" using j by simp
  then show "xs[j := xs ! Suc j, Suc j := xs ! j] =
           take j xs @ xs ! Suc j # xs ! j # drop (Suc (Suc j)) xs"
    by (subst (1 2) 1) (simp add: list_update_append nth_append del: append_take_drop_id)
qed

lemma swap_filter:
  assumes "Suc j < length xs" and "\<not> (P (xs ! j) \<and> P (xs ! Suc j))"
  shows "filter P (xs[j := xs ! Suc j, Suc j := xs ! j]) = filter P xs"
proof -
  have "filter P (take j xs @ xs ! Suc j # xs ! j # drop (Suc (Suc j)) xs) =
        filter P (take j xs @ xs ! j # xs ! Suc j # drop (Suc (Suc j)) xs)"
    using assms(2) by auto
  with swap_adjacent [OF assms(1)] show ?thesis by metis
qed

lemma innerLoop_mset: "mset (innerLoop \<sigma> i j xs) = mset xs"
proof (induction \<sigma> i j xs rule: innerLoop.induct)
  case (1 \<sigma> i j xs)
  show ?case
  proof (cases "int j < int (length xs) - int i - 1")
    case True
    then have "j < length xs" "j + 1 < length xs" by linarith+
    then have "mset (xs[j := xs ! (j + 1), j + 1 := xs ! j]) = mset xs"
      by (simp add: mset_swap)
    with True 1 show ?thesis by (subst innerLoop.simps) simp
  next
    case False
    then show ?thesis by (subst innerLoop.simps) simp
  qed
qed

lemma innerLoop_stable:
  "filter (\<lambda>a. Weight (\<sigma> a) = w) (innerLoop \<sigma> i j xs) = filter (\<lambda>a. Weight (\<sigma> a) = w) xs"
proof (induction \<sigma> i j xs rule: innerLoop.induct)
  case (1 \<sigma> i j xs)
  show ?case
  proof (cases "int j < int (length xs) - int i - 1")
    case True
    then have len: "Suc j < length xs" by linarith
    show ?thesis
    proof (cases "Weight (\<sigma> (xs ! j)) < Weight (\<sigma> (xs ! (j + 1)))")
      case lt: True
      then have "filter (\<lambda>a. Weight (\<sigma> a) = w) (xs[j := xs ! Suc j, Suc j := xs ! j]) =
          filter (\<lambda>a. Weight (\<sigma> a) = w) xs"
        by (intro swap_filter [OF len]) auto
      with True lt 1 show ?thesis by (subst innerLoop.simps) simp
    next
      case False
      with True 1 show ?thesis by (subst innerLoop.simps) simp
    qed
  next
    case False
    then show ?thesis by (subst innerLoop.simps) simp
  qed
qed

lemma innerLoop_above:
  "length xs \<le> p + i \<Longrightarrow> innerLoop \<sigma> i j xs ! p = xs ! p"
proof (induction \<sigma> i j xs rule: innerLoop.induct)
  case (1 \<sigma> i j xs)
  show ?case
  proof (cases "int j < int (length xs) - int i - 1")
    case True
    with "1.prems" have "j \<noteq> p" "j + 1 \<noteq> p" by linarith+
    with True 1 show ?thesis by (subst innerLoop.simps) simp
  next
    case False
    then show ?thesis by (subst innerLoop.simps) simp
  qed
qed

lemma innerLoop_step:
  "int j < int (length xs) - int i - 1 \<Longrightarrow>
     innerLoop \<sigma> i j xs =
       innerLoop \<sigma> i (j + 1)
         (if Weight (\<sigma> (xs ! j)) < Weight (\<sigma> (xs ! (j + 1)))
          then xs[j := xs ! (j + 1), j + 1 := xs ! j] else xs)"
  by (subst innerLoop.simps) simp

lemma innerLoop_stop:
  "\<not> int j < int (length xs) - int i - 1 \<Longrightarrow> innerLoop \<sigma> i j xs = xs"
  by (subst innerLoop.simps) simp

lemma innerLoop_min:
  assumes "j + i < length xs"
    and "\<forall>p\<le>j. Weight (\<sigma> (xs ! j)) \<le> Weight (\<sigma> (xs ! p))"
  shows "\<forall>p. p + i < length xs \<longrightarrow>
           Weight (\<sigma> (innerLoop \<sigma> i j xs ! (length xs - 1 - i))) \<le>
           Weight (\<sigma> (innerLoop \<sigma> i j xs ! p))"
  using assms
proof (induction \<sigma> i j xs rule: innerLoop.induct)
  case (1 \<sigma> i j xs)
  show ?case
  proof (cases "int j < int (length xs) - int i - 1")
    case True
    then have len: "Suc j < length xs" "Suc j + i < length xs" by linarith+
    define xs' where "xs' = (if Weight (\<sigma> (xs ! j)) < Weight (\<sigma> (xs ! (j + 1)))
           then xs[j := xs ! (j + 1), j + 1 := xs ! j] else xs)"
    have l: "length xs' = length xs" by (simp add: xs'_def)
    have inv: "\<forall>p\<le>j + 1. Weight (\<sigma> (xs' ! (j + 1))) \<le> Weight (\<sigma> (xs' ! p))"
    proof (intro allI impI)
      fix p assume p: "p \<le> j + 1"
      show "Weight (\<sigma> (xs' ! (j + 1))) \<le> Weight (\<sigma> (xs' ! p))"
      proof (cases "p \<le> j")
        case True
        with "1.prems"(2) have "Weight (\<sigma> (xs ! j)) \<le> Weight (\<sigma> (xs ! p))" by simp
        with True len show ?thesis by (auto simp: xs'_def nth_list_update)
      next
        case False
        with p have "p = j + 1" by simp
        then show ?thesis by simp
      qed
    qed
    have "\<forall>p. p + i < length xs' \<longrightarrow>
           Weight (\<sigma> (innerLoop \<sigma> i (j + 1) xs' ! (length xs' - 1 - i))) \<le>
           Weight (\<sigma> (innerLoop \<sigma> i (j + 1) xs' ! p))"
      unfolding xs'_def
      by (rule "1.IH" [OF True]) (use len inv in \<open>auto simp: xs'_def\<close>)
    moreover have "innerLoop \<sigma> i j xs = innerLoop \<sigma> i (j + 1) xs'"
      unfolding xs'_def by (rule innerLoop_step [OF True])
    ultimately show ?thesis by (simp add: l)
  next
    case False
    with "1.prems"(1) have "j = length xs - 1 - i" by linarith
    with False "1.prems" show ?thesis
      by (simp add: innerLoop_stop)
  qed
qed


lemma innerLoop_drop:
  "drop (length xs - i) (innerLoop \<sigma> i j xs) = drop (length xs - i) xs"
  by (rule nth_equalityI) (auto simp: innerLoop_above)

lemma innerLoop_take_set:
  "set (take (length xs - i) (innerLoop \<sigma> i j xs)) = set (take (length xs - i) xs)"
proof -
  let ?k = "length xs - i" and ?ys = "innerLoop \<sigma> i j xs"
  have "mset (take ?k ?ys) + mset (drop ?k ?ys) = mset (take ?k xs) + mset (drop ?k xs)"
    by (simp only: mset_append [symmetric] append_take_drop_id innerLoop_mset)
  then have "mset (take ?k ?ys) = mset (take ?k xs)"
    by (simp add: innerLoop_drop)
  then show ?thesis by (rule mset_eq_setD)
qed

lemma suffixSorted_step:
  assumes inv: "suffixSorted \<sigma> i xs" and i: "int i < int (length xs) - 1"
  shows "suffixSorted \<sigma> (i + 1) (innerLoop \<sigma> i 0 xs)"
  unfolding suffixSorted_def
proof (intro allI impI)
  fix p q
  let ?ys = "innerLoop \<sigma> i 0 xs"
  assume a: "p < q \<and> q < length ?ys \<and> length ?ys \<le> q + (i + 1)"
  then have pq: "p < q" "q < length xs" "length xs \<le> q + i + 1" by simp_all
  show "Weight (\<sigma> (?ys ! q)) \<le> Weight (\<sigma> (?ys ! p))"
  proof (cases "length xs \<le> q + i")
    case False
    with pq have q: "q = length xs - 1 - i" by linarith
    from pq q have "p + i < length xs" by linarith
    moreover from i have "0 + i < length xs" by linarith
    ultimately show ?thesis
      using innerLoop_min [of 0 i xs \<sigma>] q by simp
  next
    case True
    then have yq: "?ys ! q = xs ! q" by (rule innerLoop_above)
    show ?thesis
    proof (cases "length xs \<le> p + i")
      case pa: True
      then have "?ys ! p = xs ! p" by (rule innerLoop_above)
      with yq inv pq True show ?thesis by (auto simp: suffixSorted_def)
    next
      case False
      then have "p < length xs - i" by linarith
      then have "?ys ! p \<in> set (take (length xs - i) ?ys)"
        by (metis length_innerLoop length_take min_less_iff_conj nth_mem nth_take pq(1,2) order_less_trans)
      then have "?ys ! p \<in> set (take (length xs - i) xs)"
        by (simp only: innerLoop_take_set)
      then obtain p' where p': "p' < length xs - i" "p' < length xs" "xs ! p' = ?ys ! p"
        by (metis in_set_conv_nth length_take min_less_iff_conj nth_take)
      with True have "p' < q" by linarith
      with inv pq True have "Weight (\<sigma> (xs ! q)) \<le> Weight (\<sigma> (xs ! p'))"
        by (auto simp: suffixSorted_def)
      with yq p' show ?thesis by simp
    qed
  qed
qed

lemma outerLoop_sorted:
  assumes "suffixSorted \<sigma> i xs" and "i < length xs"
  shows "suffixSorted \<sigma> (length xs - 1) (outerLoop \<sigma> i xs)"
  using assms
proof (induction \<sigma> i xs rule: outerLoop.induct)
  case (1 \<sigma> i xs)
  show ?case
  proof (cases "int i < int (length xs) - 1")
    case True
    have "suffixSorted \<sigma> (length (innerLoop \<sigma> i 0 xs) - 1) (outerLoop \<sigma> (i + 1) (innerLoop \<sigma> i 0 xs))"
      by (rule "1.IH" [OF True]) (use True "1.prems" suffixSorted_step in auto)
    with True show ?thesis by (subst outerLoop.simps) simp
  next
    case False
    with "1.prems" have "i = length xs - 1" by linarith
    with False "1.prems" show ?thesis by (subst outerLoop.simps) simp
  qed
qed

lemma outerLoop_mset: "mset (outerLoop \<sigma> i xs) = mset xs"
proof (induction \<sigma> i xs rule: outerLoop.induct)
  case (1 \<sigma> i xs)
  then show ?case by (subst outerLoop.simps) (simp add: innerLoop_mset)
qed

lemma outerLoop_stable:
  "filter (\<lambda>a. Weight (\<sigma> a) = w) (outerLoop \<sigma> i xs) = filter (\<lambda>a. Weight (\<sigma> a) = w) xs"
proof (induction \<sigma> i xs rule: outerLoop.induct)
  case (1 \<sigma> i xs)
  then show ?case by (subst outerLoop.simps) (simp add: innerLoop_stable)
qed

lemma getSorted_sorted:
  "sorted_wrt (\<lambda>a b. Weight (\<sigma> b) \<le> Weight (\<sigma> a)) (getSortedEndpointsByWeight \<sigma> xs)"
proof (cases "xs = []")
  case True
  then show ?thesis by (simp add: getSortedEndpointsByWeight_def)
next
  case False
  have "suffixSorted \<sigma> 0 xs" by (simp add: suffixSorted_def)
  with False have "suffixSorted \<sigma> (length xs - 1) (outerLoop \<sigma> 0 xs)"
    by (intro outerLoop_sorted) simp_all
  then have "\<forall>p q. p < q \<longrightarrow> q < length (outerLoop \<sigma> 0 xs) \<longrightarrow>
      Weight (\<sigma> (outerLoop \<sigma> 0 xs ! q)) \<le> Weight (\<sigma> (outerLoop \<sigma> 0 xs ! p))"
    unfolding suffixSorted_def by (intro allI impI) (simp add: Suc_leI)
  with False show ?thesis
    by (simp add: getSortedEndpointsByWeight_def sorted_wrt_iff_nth_less)
qed

text \<open>
  C4. For every list of endpoint pointers and every heap, \<^verbatim>\<open>getSortedEndpointsByWeight\<close>
  returns a permutation of the list, in descending order of weight, in which the
  endpoints of any one weight stand in the order they had in the input: it is the stable
  sort of the input by descending weight. Being a function of the list and the weights,
  it gives the same order on every call.
\<close>

theorem sort_by_weight:
  "mset (getSortedEndpointsByWeight \<sigma> xs) = mset xs \<and>
   sorted_wrt (\<lambda>a b. Weight (\<sigma> a) \<ge> Weight (\<sigma> b)) (getSortedEndpointsByWeight \<sigma> xs) \<and>
   (\<forall>w. filter (\<lambda>a. Weight (\<sigma> a) = w) (getSortedEndpointsByWeight \<sigma> xs) =
        filter (\<lambda>a. Weight (\<sigma> a) = w) xs) \<and>
   getSortedEndpointsByWeight \<sigma> xs = sort_key (\<lambda>a. - Weight (\<sigma> a)) xs"
proof -
  let ?ys = "getSortedEndpointsByWeight \<sigma> xs"
  have m: "mset ?ys = mset xs"
    by (simp add: getSortedEndpointsByWeight_def outerLoop_mset)
  have s: "sorted_wrt (\<lambda>a b. Weight (\<sigma> a) \<ge> Weight (\<sigma> b)) ?ys"
    by (rule getSorted_sorted)
  have f: "filter (\<lambda>a. Weight (\<sigma> a) = w) ?ys = filter (\<lambda>a. Weight (\<sigma> a) = w) xs" for w
    by (simp add: getSortedEndpointsByWeight_def outerLoop_stable)
  have "sort_key (\<lambda>a. - Weight (\<sigma> a)) xs = ?ys"
  proof (rule properties_for_sort_key)
    show "mset ?ys = mset xs" by (rule m)
    show "filter (\<lambda>x. - Weight (\<sigma> k) = - Weight (\<sigma> x)) ?ys =
        filter (\<lambda>x. - Weight (\<sigma> k) = - Weight (\<sigma> x)) xs" for k
      using f [of "Weight (\<sigma> k)"] by (simp add: eq_commute)
    from s show "sorted (map (\<lambda>a. - Weight (\<sigma> a)) ?ys)"
      by (simp add: sorted_wrt_map)
  qed
  with m s f show ?thesis by simp
qed

end
